theory Spec2Isabelle
  imports Complex_Main "HOL-Library.Product_Lexorder" "HOL-Library.Multiset"
begin

section \<open>Data model (types.ts, db/migrate.ts)\<close>

text \<open>
  The rows of the two tables and the request, as \<^verbatim>\<open>types.ts\<close> declares them. Field names
  carry a prefix (\<open>t_\<close> for \<^verbatim>\<open>Ticket\<close>, \<open>b_\<close> for \<^verbatim>\<open>Booking\<close>, \<open>r_\<close> for
  \<^verbatim>\<open>BookingRequest\<close>) because the interfaces share names and \<^verbatim>\<open>id\<close> is a constant of HOL.
  \<^verbatim>\<open>DECIMAL(10, 2)\<close> prices are exact rationals here; the rounding of JavaScript's
  \<^verbatim>\<open>parseFloat\<close> is not part of the model. Timestamps are natural numbers.
\<close>

datatype TicketTier = VIP | FrontRow | GA

datatype PaymentStatus = pending | success | failed

record Ticket =
  t_id :: int
  t_tier :: TicketTier
  t_price :: rat
  t_available :: bool
  t_created_at :: nat

record Booking =
  b_id :: int
  b_ticket_id :: int
  b_user_id :: string
  b_quantity :: int
  b_total_price :: rat
  b_payment_status :: PaymentStatus
  b_booking_reference :: "string option"
  b_created_at :: nat

record BookingRequest =
  r_tier :: TicketTier
  r_quantity :: int
  r_userId :: string

text \<open>A snapshot of the two tables, in physical row order.\<close>

record database =
  tickets :: "Ticket list"
  bookings :: "Booking list"

section \<open>The database server and a pooled client\<close>

text \<open>
  Every statement the service sends, and the call of \<^verbatim>\<open>simulatePayment\<close>, is recorded in a
  trace, so that the order of the steps of one attempt can be stated.
\<close>

datatype event =
    EvSetIsolation
  | EvBegin
  | EvSelectForUpdate TicketTier int
  | EvInsertBooking int
  | EvMarkUnavailable int
  | EvSimulatePayment
  | EvUpdateStatus string
  | EvCommit
  | EvRollback

text \<open>
  The server: the committed tables, the sequence behind \<^verbatim>\<open>bookings.id SERIAL\<close> (a sequence
  is not transactional: a rollback does not give its values back) and the trace.
  A client is a connection taken from the pool: the server it talks to, and the working
  copy of the tables while it is inside a transaction block.
\<close>

record server =
  committed :: database
  bookings_id_seq :: int
  trace :: "event list"

record client = server +
  txn :: "database option"

definition pool_connect :: "server \<Rightarrow> client" where
  "pool_connect s =
     \<lparr>committed = committed s, bookings_id_seq = bookings_id_seq s, trace = trace s, txn = None\<rparr>"

definition release :: "client \<Rightarrow> server" where
  "release c =
     \<lparr>committed = committed c, bookings_id_seq = bookings_id_seq c, trace = trace c\<rparr>"

definition cur :: "client \<Rightarrow> database" where
  "cur c = (case txn c of None \<Rightarrow> committed c | Some w \<Rightarrow> w)"

definition put :: "database \<Rightarrow> client \<Rightarrow> client" where
  "put d c = (case txn c of None \<Rightarrow> c\<lparr>committed := d\<rparr> | Some w \<Rightarrow> c\<lparr>txn := Some d\<rparr>)"

definition record_event :: "event \<Rightarrow> client \<Rightarrow> client" where
  "record_event ev c = c\<lparr>trace := trace c @ [ev]\<rparr>"

text \<open>
  \<^verbatim>\<open>SET TRANSACTION ISOLATION LEVEL SERIALIZABLE\<close>, \<^verbatim>\<open>BEGIN\<close>, \<^verbatim>\<open>COMMIT\<close> and
  \<^verbatim>\<open>ROLLBACK\<close>. The service sets the isolation level before \<^verbatim>\<open>BEGIN\<close>, outside a
  transaction block, where the server only warns; \<^verbatim>\<open>BEGIN\<close> inside a block and
  \<^verbatim>\<open>COMMIT\<close>/\<^verbatim>\<open>ROLLBACK\<close> outside one only warn as well.
\<close>

definition query_set_isolation :: "client \<Rightarrow> client" where
  "query_set_isolation c = record_event EvSetIsolation c"

definition query_begin :: "client \<Rightarrow> client" where
  "query_begin c =
     record_event EvBegin
       (case txn c of None \<Rightarrow> c\<lparr>txn := Some (committed c)\<rparr> | Some w \<Rightarrow> c)"

definition query_commit :: "client \<Rightarrow> client" where
  "query_commit c =
     record_event EvCommit
       (case txn c of None \<Rightarrow> c | Some w \<Rightarrow> c\<lparr>committed := w, txn := None\<rparr>)"

definition query_rollback :: "client \<Rightarrow> client" where
  "query_rollback c = record_event EvRollback (c\<lparr>txn := None\<rparr>)"

text \<open>A failed statement carries the SQLSTATE code that \<^verbatim>\<open>error.code\<close> reads.\<close>

datatype pg_error = PgError string

fun code :: "pg_error \<Rightarrow> string" where
  "code (PgError s) = s"

text \<open>
  \<^verbatim>\<open>SELECT ... FROM tickets WHERE tier = $1 AND available = true ORDER BY id LIMIT $2
  FOR UPDATE SKIP LOCKED\<close>. The rows locked by other transactions in flight are the
  parameter \<open>locked\<close>.

  The limit is a \<^verbatim>\<open>bigint\<close> parameter. The quantity is a JavaScript number, here an
  integer, and reaches the server as its decimal text: from \<open>10\<^sup>2\<^sup>1\<close> on that text is
  in exponent notation, which is no \<^verbatim>\<open>bigint\<close> (SQLSTATE 22P02); a value outside
  \<open>-2\<^sup>6\<^sup>3 < q < 2\<^sup>6\<^sup>3\<close> is out of range (22003; the text of \<open>-2\<^sup>6\<^sup>3\<close> itself is
  rounded away from zero); a negative limit is refused (2201W).
\<close>

definition limit_error :: "int \<Rightarrow> string option" where
  "limit_error q =
     (if 10 ^ 21 \<le> \<bar>q\<bar> then Some ''22P02''
      else if q \<le> - (2 ^ 63) \<or> 2 ^ 63 \<le> q then Some ''22003''
      else if q < 0 then Some ''2201W''
      else None)"

definition candidate :: "int set \<Rightarrow> TicketTier \<Rightarrow> Ticket \<Rightarrow> bool" where
  "candidate locked tier t \<longleftrightarrow> t_tier t = tier \<and> t_available t \<and> t_id t \<notin> locked"

definition query_select_for_update ::
  "int set \<Rightarrow> TicketTier \<Rightarrow> int \<Rightarrow> client \<Rightarrow> (pg_error + Ticket list) \<times> client" where
  "query_select_for_update locked tier quantity c =
     (let c1 = record_event (EvSelectForUpdate tier quantity) c in
      case limit_error quantity of
        Some sqlstate \<Rightarrow> (Inl (PgError sqlstate), c1)
      | None \<Rightarrow>
          (Inr (take (nat quantity)
                 (sort_key t_id (filter (candidate locked tier) (tickets (cur c))))), c1))"

text \<open>
  \<^verbatim>\<open>INSERT INTO bookings (...) VALUES ($1, $2, $3, $4, $5, 'pending') RETURNING ...\<close> under
  the constraints of \<^verbatim>\<open>migrate.ts\<close>, in the order in which the server meets them:
  \<^item> a text parameter that contains the character NUL is refused when the statement is
    bound (SQLSTATE 22021);
  \<^item> \<^verbatim>\<open>user_id VARCHAR(255)\<close> and \<^verbatim>\<open>booking_reference VARCHAR(255)\<close>: a value longer
    than 255 characters is cut to 255 when all the characters beyond are blanks, and
    refused otherwise (22001);
  \<^item> only then is the row built and the next value of the id sequence taken;
  \<^item> \<^verbatim>\<open>ticket_id ... UNIQUE\<close> and \<^verbatim>\<open>booking_reference ... UNIQUE\<close> (23505);
  \<^item> \<^verbatim>\<open>ticket_id REFERENCES tickets(id)\<close> (23503).
  A string is the list of its characters.
\<close>

definition has_nul :: "string \<Rightarrow> bool" where
  "has_nul x \<longleftrightarrow> CHR 0x00 \<in> set x"

definition overlong :: "string \<Rightarrow> bool" where
  "overlong x \<longleftrightarrow> \<not> list_all (\<lambda>ch. ch = CHR '' '') (drop 255 x)"

definition stored :: "string \<Rightarrow> string" where
  "stored x = take 255 x"

definition query_insert_booking ::
  "int \<Rightarrow> string \<Rightarrow> int \<Rightarrow> rat \<Rightarrow> string \<Rightarrow> nat \<Rightarrow> client \<Rightarrow> (pg_error + Booking) \<times> client" where
  "query_insert_booking tid uid qty tp ref now c =
     (let d = cur c;
          c0 = record_event (EvInsertBooking tid) c;
          nid = bookings_id_seq c + 1;
          c1 = c0\<lparr>bookings_id_seq := nid\<rparr>;
          row = \<lparr>b_id = nid, b_ticket_id = tid, b_user_id = stored uid, b_quantity = qty,
                 b_total_price = tp, b_payment_status = pending,
                 b_booking_reference = Some (stored ref), b_created_at = now\<rparr>
      in if has_nul uid \<or> has_nul ref then (Inl (PgError ''22021''), c0)
         else if overlong uid \<or> overlong ref then (Inl (PgError ''22001''), c0)
         else if tid \<in> set (map b_ticket_id (bookings d))
                 \<or> Some (stored ref) \<in> set (map b_booking_reference (bookings d))
           then (Inl (PgError ''23505''), c1)
         else if tid \<notin> set (map t_id (tickets d)) then (Inl (PgError ''23503''), c1)
         else (Inr row, put (d\<lparr>bookings := bookings d @ [row]\<rparr>) c1))"

text \<open>\<^verbatim>\<open>UPDATE tickets SET available = false WHERE id = $1\<close>\<close>

definition query_mark_unavailable :: "int \<Rightarrow> client \<Rightarrow> client" where
  "query_mark_unavailable tid c =
     (let d = cur c
      in put (d\<lparr>tickets := map (\<lambda>t. if t_id t = tid then t\<lparr>t_available := False\<rparr> else t)
                                (tickets d)\<rparr>)
           (record_event (EvMarkUnavailable tid) c))"

text \<open>\<^verbatim>\<open>UPDATE bookings SET payment_status = 'success' WHERE booking_reference = $1\<close>\<close>

definition query_update_status :: "string \<Rightarrow> client \<Rightarrow> client" where
  "query_update_status ref c =
     (let d = cur c
      in put (d\<lparr>bookings := map (\<lambda>b. if b_booking_reference b = Some ref
                                      then b\<lparr>b_payment_status := success\<rparr> else b)
                                 (bookings d)\<rparr>)
           (record_event (EvUpdateStatus ref) c))"

section \<open>bookingService.ts\<close>

text \<open>
  What one call of \<^verbatim>\<open>createBooking\<close> reads from outside the database: the rows other
  transactions hold locked, the reference built from \<^verbatim>\<open>Date.now()\<close> and
  \<^verbatim>\<open>Math.random()\<close>, the outcome of \<^verbatim>\<open>simulatePayment\<close> (\<^verbatim>\<open>Math.random() > 0.1\<close>) and
  the server's clock. The service builds the reference as \<^verbatim>\<open>BK-\<close>, the digits of the time,
  a dash and up to nine digits in base 36; the environment admits any string.
\<close>

record env =
  locked :: "int set"
  bookingReference :: string
  paymentSuccess :: bool
  now :: nat

text \<open>The errors \<^verbatim>\<open>createBooking\<close> throws; \<open>DbFailure\<close> is a database error thrown on.\<close>

datatype error =
    InsufficientTickets int nat
  | AlreadyBooked
  | PaymentFailed
  | DbFailure string

definition getAvailableTickets ::
  "int set \<Rightarrow> client \<Rightarrow> TicketTier \<Rightarrow> int \<Rightarrow> (pg_error + Ticket list) \<times> client" where
  "getAvailableTickets lk c tier quantity = query_select_for_update lk tier quantity c"

text \<open>
  The loop over the selected tickets: insert a pending row, mark the ticket unavailable,
  collect the row. A unique violation rolls back and throws the conflict error; any other
  error is thrown on as it is.
\<close>

fun insert_bookings ::
  "env \<Rightarrow> BookingRequest \<Rightarrow> Ticket list \<Rightarrow> Booking list \<Rightarrow> client
     \<Rightarrow> (error + Booking list) \<times> client" where
  "insert_bookings e r [] acc c = (Inr acc, c)"
| "insert_bookings e r (t # ts) acc c =
     (case query_insert_booking (t_id t) (r_userId r) 1 (t_price t) (bookingReference e) (now e) c of
        (Inl err, c1) \<Rightarrow>
          if code err = ''23505'' then (Inl AlreadyBooked, query_rollback c1)
          else (Inl (DbFailure (code err)), c1)
      | (Inr row, c1) \<Rightarrow>
          insert_bookings e r ts (acc @ [row]) (query_mark_unavailable (t_id t) c1))"

text \<open>
  The body of the \<^verbatim>\<open>try\<close> up to the call of \<^verbatim>\<open>simulatePayment\<close>: isolation level,
  \<^verbatim>\<open>BEGIN\<close>, selection, the check of the count, the loop. It returns the selected tickets
  and the pending rows, with the client as it is when the payment is about to be simulated.
  (\<^verbatim>\<open>totalPrice\<close> is computed by the source and never used.)
\<close>

definition claim_tickets ::
  "env \<Rightarrow> BookingRequest \<Rightarrow> client \<Rightarrow> (error + Ticket list \<times> Booking list) \<times> client" where
  "claim_tickets e r c =
     (case getAvailableTickets (locked e) (query_begin (query_set_isolation c))
             (r_tier r) (r_quantity r) of
        (Inl err, c1) \<Rightarrow> (Inl (DbFailure (code err)), c1)
      | (Inr ts, c1) \<Rightarrow>
          if int (length ts) < r_quantity r
          then (Inl (InsufficientTickets (r_quantity r) (length ts)), query_rollback c1)
          else (case insert_bookings e r ts [] c1 of
                  (Inl err, c2) \<Rightarrow> (Inl err, c2)
                | (Inr bs, c2) \<Rightarrow> (Inr (ts, bs), c2)))"

text \<open>
  The rest of the \<^verbatim>\<open>try\<close>: the payment, then update and \<^verbatim>\<open>COMMIT\<close>, or \<^verbatim>\<open>ROLLBACK\<close>
  and the payment error.
\<close>

definition confirm_bookings ::
  "env \<Rightarrow> Booking list \<Rightarrow> client \<Rightarrow> (error + Booking list) \<times> client" where
  "confirm_bookings e bs c =
     (let c1 = record_event EvSimulatePayment c
      in if paymentSuccess e
         then (Inr (map (\<lambda>b. b\<lparr>b_payment_status := success\<rparr>) bs),
               query_commit (query_update_status (bookingReference e) c1))
         else (Inl PaymentFailed, query_rollback c1))"

text \<open>
  The outer \<^verbatim>\<open>catch\<close>: roll back once more, throw the error on. \<open>createBooking_on\<close> is
  the \<^verbatim>\<open>try\<close> with its \<^verbatim>\<open>catch\<close> on a client; \<open>createBooking\<close> takes the client from the
  pool and releases it. A call is one transaction, run to its \<^verbatim>\<open>COMMIT\<close> or \<^verbatim>\<open>ROLLBACK\<close>
  before the next call starts; what other transactions in flight hold is the set
  \<open>locked\<close> of the environment.
\<close>

definition catch_rollback :: "(error + 'a) \<times> client \<Rightarrow> (error + 'a) \<times> client" where
  "catch_rollback rc =
     (case rc of (Inl err, c) \<Rightarrow> (Inl err, query_rollback c) | (Inr v, c) \<Rightarrow> (Inr v, c))"

definition createBooking_on :: "env \<Rightarrow> BookingRequest \<Rightarrow> client \<Rightarrow> (error + Booking list) \<times> client" where
  "createBooking_on e r c =
     catch_rollback
       (case claim_tickets e r c of
          (Inl err, c1) \<Rightarrow> (Inl err, c1)
        | (Inr (ts, bs), c1) \<Rightarrow> confirm_bookings e bs c1)"

definition createBooking :: "env \<Rightarrow> BookingRequest \<Rightarrow> server \<Rightarrow> (error + Booking list) \<times> server" where
  "createBooking e r s =
     (case createBooking_on e r (pool_connect s) of (res, c) \<Rightarrow> (res, release c))"

text \<open>A sequence of calls, one after the other, each with its own environment.\<close>

fun run :: "server \<Rightarrow> (env \<times> BookingRequest) list \<Rightarrow> server" where
  "run s [] = s"
| "run s ((e, r) # as) = run (snd (createBooking e r s)) as"

subsection \<open>The read-only entry points\<close>

text \<open>
  \<^verbatim>\<open>SELECT tier, COUNT(*) AS total, SUM(CASE WHEN available = true THEN 1 ELSE 0 END) AS
  available, MAX(price) AS price FROM tickets GROUP BY tier\<close>: one row for each tier that
  has a ticket.
\<close>

fun max_price :: "rat list \<Rightarrow> rat" where
  "max_price [] = 0"
| "max_price [p] = p"
| "max_price (p # q # ps) = max p (max_price (q # ps))"

definition query_group_by_tier :: "database \<Rightarrow> (TicketTier \<times> nat \<times> nat \<times> rat) list" where
  "query_group_by_tier d =
     map (\<lambda>tr. let g = filter (\<lambda>t. t_tier t = tr) (tickets d)
               in (tr, length g, length (filter t_available g), max_price (map t_price g)))
         (remdups (map t_tier (tickets d)))"

record TierAvailability =
  a_available :: nat
  a_total :: nat
  a_price :: rat

record AvailabilityReport =
  rep_VIP :: TierAvailability
  rep_FrontRow :: TierAvailability
  rep_GA :: TierAvailability

definition or_default :: "TierAvailability option \<Rightarrow> rat \<Rightarrow> TierAvailability" where
  "or_default x p =
     (case x of Some a \<Rightarrow> a | None \<Rightarrow> \<lparr>a_available = 0, a_total = 0, a_price = p\<rparr>)"

definition getTicketAvailability :: "database \<Rightarrow> AvailabilityReport" where
  "getTicketAvailability d =
     (let availability =
            fold (\<lambda>(tr, total, avail, p) m.
                    m(tr \<mapsto> \<lparr>a_available = avail, a_total = total, a_price = p\<rparr>))
                 (query_group_by_tier d) Map.empty
      in \<lparr>rep_VIP = or_default (availability VIP) 100,
          rep_FrontRow = or_default (availability FrontRow) 50,
          rep_GA = or_default (availability GA) 10\<rparr>)"

fun entry :: "AvailabilityReport \<Rightarrow> TicketTier \<Rightarrow> TierAvailability" where
  "entry rep VIP = rep_VIP rep"
| "entry rep FrontRow = rep_FrontRow rep"
| "entry rep GA = rep_GA rep"

text \<open>
  \<^verbatim>\<open>SELECT ... FROM tickets WHERE available = true ORDER BY tier, id\<close>; the tier names
  sort as \<^verbatim>\<open>'Front Row' < 'GA' < 'VIP'\<close>.
\<close>

fun tier_rank :: "TicketTier \<Rightarrow> nat" where
  "tier_rank FrontRow = 0"
| "tier_rank GA = 1"
| "tier_rank VIP = 2"

definition getAllAvailableTickets :: "database \<Rightarrow> Ticket list" where
  "getAllAvailableTickets d =
     sort_key (\<lambda>t. (tier_rank (t_tier t), t_id t)) (filter t_available (tickets d))"

section \<open>routes/bookingRoutes.ts\<close>

text \<open>
  The body of a request as the handler receives it, \<^verbatim>\<open>req.body\<close> after
  \<^verbatim>\<open>express.json()\<close>: a parsed value. Its numbers are JavaScript numbers, here the
  rationals among them; of several equal keys of an object the parser keeps the last.
\<close>

datatype json =
    JNull
  | JBool bool
  | JNum rat
  | JStr string
  | JArr "json list"
  | JObj "(string \<times> json) list"

definition field :: "(string \<times> json) list \<Rightarrow> string \<Rightarrow> json option" where
  "field kvs k = map_of (rev kvs) k"

text \<open>\<^verbatim>\<open>z.enum(['VIP', 'Front Row', 'GA'])\<close>\<close>

definition parse_tier :: "json option \<Rightarrow> TicketTier option" where
  "parse_tier j =
     (case j of
        Some (JStr s) \<Rightarrow>
          if s = ''VIP'' then Some VIP
          else if s = ''Front Row'' then Some FrontRow
          else if s = ''GA'' then Some GA
          else None
      | _ \<Rightarrow> None)"

text \<open>\<^verbatim>\<open>z.number().int().min(1).max(100)\<close>\<close>

definition parse_quantity :: "json option \<Rightarrow> int option" where
  "parse_quantity j =
     (case j of
        Some (JNum q) \<Rightarrow>
          if of_int \<lfloor>q\<rfloor> = q \<and> 1 \<le> q \<and> q \<le> 100 then Some \<lfloor>q\<rfloor> else None
      | _ \<Rightarrow> None)"

text \<open>\<^verbatim>\<open>z.string().min(1)\<close>\<close>

definition parse_userId :: "json option \<Rightarrow> string option" where
  "parse_userId j =
     (case j of
        Some (JStr s) \<Rightarrow> if 1 \<le> length s then Some s else None
      | _ \<Rightarrow> None)"

definition bookingRequestSchema_safeParse :: "json \<Rightarrow> BookingRequest option" where
  "bookingRequestSchema_safeParse body =
     (case body of
        JObj kvs \<Rightarrow>
          (case (parse_tier (field kvs ''tier''), parse_quantity (field kvs ''quantity''),
                 parse_userId (field kvs ''userId'')) of
             (Some t, Some q, Some u) \<Rightarrow> Some \<lparr>r_tier = t, r_quantity = q, r_userId = u\<rparr>
           | _ \<Rightarrow> None)
      | _ \<Rightarrow> None)"

text \<open>
  The response: its status and what it carries. The handler tells the errors of
  \<^verbatim>\<open>createBooking\<close> apart by their message; here by their constructor.
\<close>

datatype payload = Booked "Booking list" | InvalidRequest | Failed error | FailedToCreate

fun error_response :: "error \<Rightarrow> nat \<times> payload" where
  "error_response (InsufficientTickets q n) = (409, Failed (InsufficientTickets q n))"
| "error_response AlreadyBooked = (409, Failed AlreadyBooked)"
| "error_response PaymentFailed = (402, Failed PaymentFailed)"
| "error_response (DbFailure c) = (500, FailedToCreate)"

definition post_bookings :: "env \<Rightarrow> json \<Rightarrow> server \<Rightarrow> (nat \<times> payload) \<times> server" where
  "post_bookings e body s =
     (case bookingRequestSchema_safeParse body of
        None \<Rightarrow> ((400, InvalidRequest), s)
      | Some bookingRequest \<Rightarrow>
          (case createBooking e bookingRequest s of
             (Inr bs, s1) \<Rightarrow> ((201, Booked bs), s1)
           | (Inl err, s1) \<Rightarrow> (error_response err, s1)))"

section \<open>Vocabulary of the statements\<close>

text \<open>The report entry computed directly from the rows of one tier.\<close>

definition tier_entry :: "database \<Rightarrow> TicketTier \<Rightarrow> TierAvailability" where
  "tier_entry d tr =
     (let g = filter (\<lambda>t. t_tier t = tr) (tickets d)
      in \<lparr>a_available = length (filter t_available g), a_total = length g,
          a_price = max_price (map t_price g)\<rparr>)"

fun default_price :: "TicketTier \<Rightarrow> rat" where
  "default_price VIP = 100"
| "default_price FrontRow = 50"
| "default_price GA = 10"

text \<open>The tickets one attempt selects from a snapshot.\<close>

definition selected :: "env \<Rightarrow> BookingRequest \<Rightarrow> database \<Rightarrow> Ticket list" where
  "selected e r d =
     take (nat (r_quantity r))
       (sort_key t_id (filter (candidate (locked e) (r_tier r)) (tickets d)))"

text \<open>The pending rows the loop writes for a list of tickets, the sequence standing at \<open>n\<close>.\<close>

fun pending_rows :: "env \<Rightarrow> BookingRequest \<Rightarrow> int \<Rightarrow> Ticket list \<Rightarrow> Booking list" where
  "pending_rows e r n [] = []"
| "pending_rows e r n (t # ts) =
     \<lparr>b_id = n + 1, b_ticket_id = t_id t, b_user_id = stored (r_userId r), b_quantity = 1,
      b_total_price = t_price t, b_payment_status = pending,
      b_booking_reference = Some (stored (bookingReference e)), b_created_at = now e\<rparr>
     # pending_rows e r (n + 1) ts"

text \<open>A text value its \<^verbatim>\<open>VARCHAR(255)\<close> column takes, as it is or cut.\<close>

definition fits_varchar255 :: "string \<Rightarrow> bool" where
  "fits_varchar255 x \<longleftrightarrow> CHR 0x00 \<notin> set x \<and> (\<forall>ch \<in> set (drop 255 x). ch = CHR '' '')"

text \<open>The tickets table after the tickets with an id in \<open>ids\<close> were marked unavailable.\<close>

definition mark_all :: "int set \<Rightarrow> Ticket list \<Rightarrow> Ticket list" where
  "mark_all ids ts = map (\<lambda>t. if t_id t \<in> ids then t\<lparr>t_available := False\<rparr> else t) ts"

text \<open>The statements the loop sends for a list of tickets.\<close>

fun claim_events :: "Ticket list \<Rightarrow> event list" where
  "claim_events [] = []"
| "claim_events (t # ts) = EvInsertBooking (t_id t) # EvMarkUnavailable (t_id t) # claim_events ts"

text \<open>The client of an attempt right after its \<^verbatim>\<open>SELECT\<close>.\<close>

definition selecting :: "env \<Rightarrow> BookingRequest \<Rightarrow> server \<Rightarrow> client" where
  "selecting e r s =
     \<lparr>committed = committed s, bookings_id_seq = bookings_id_seq s,
      trace = trace s @ [EvSetIsolation, EvBegin, EvSelectForUpdate (r_tier r) (r_quantity r)],
      txn = Some (committed s)\<rparr>"

text \<open>A ticket either keeps its row or has its flag cleared; nothing sets a flag.\<close>

definition kept_or_cleared :: "Ticket \<Rightarrow> Ticket \<Rightarrow> bool" where
  "kept_or_cleared a b \<longleftrightarrow> b = a \<or> b = a\<lparr>t_available := False\<rparr>"

text \<open>The number of confirmed bookings of one ticket.\<close>

definition confirmed_count :: "database \<Rightarrow> int \<Rightarrow> nat" where
  "confirmed_count d tid =
     length (filter (\<lambda>b. b_ticket_id b = tid \<and> b_payment_status b = success) (bookings d))"

text \<open>The bookings table after the rows of a reference were set to \<open>success\<close>.\<close>

definition confirmed_rows :: "string \<Rightarrow> Booking list \<Rightarrow> Booking list" where
  "confirmed_rows ref bs =
     map (\<lambda>b. if b_booking_reference b = Some ref then b\<lparr>b_payment_status := success\<rparr> else b) bs"

text \<open>The calls of \<^verbatim>\<open>simulatePayment\<close> in a trace, and the events one attempt adds.\<close>

definition payments :: "event list \<Rightarrow> nat" where
  "payments evs = length (filter (\<lambda>ev. ev = EvSimulatePayment) evs)"

definition attempt_events :: "env \<Rightarrow> BookingRequest \<Rightarrow> server \<Rightarrow> event list" where
  "attempt_events e r s = drop (length (trace s)) (trace (snd (createBooking e r s)))"

text \<open>
  The requests the request surface has to reject, in the words of the specification: a body
  that is no object, a tier outside the three, a quantity that is no integer, below 1 or
  above 100, an empty user id.
\<close>

definition spec_invalid_request :: "json \<Rightarrow> bool" where
  "spec_invalid_request body =
     (case body of
        JObj kvs \<Rightarrow>
          field kvs ''tier'' \<notin> {Some (JStr ''VIP''), Some (JStr ''Front Row''), Some (JStr ''GA'')}
          \<or> (case field kvs ''quantity'' of
                Some (JNum q) \<Rightarrow> q \<notin> \<int> \<or> q < 1 \<or> 100 < q
              | _ \<Rightarrow> True)
          \<or> (case field kvs ''userId'' of
                Some (JStr u) \<Rightarrow> u = []
              | _ \<Rightarrow> True)
      | _ \<Rightarrow> True)"

subsection \<open>Example states\<close>

definition ticket :: "int \<Rightarrow> TicketTier \<Rightarrow> rat \<Rightarrow> bool \<Rightarrow> Ticket" where
  "ticket i tr p a = \<lparr>t_id = i, t_tier = tr, t_price = p, t_available = a, t_created_at = 0\<rparr>"

definition small_db :: database where
  "small_db = \<lparr>tickets = [ticket 1 VIP 100 True, ticket 3 GA 10 True, ticket 2 GA 10 True],
               bookings = []\<rparr>"

definition small_server :: server where
  "small_server = \<lparr>committed = small_db, bookings_id_seq = 0, trace = []\<rparr>"

definition paying :: env where
  "paying = \<lparr>locked = {}, bookingReference = ''BK-1'', paymentSuccess = True, now = 5\<rparr>"

definition declined :: env where
  "declined = \<lparr>locked = {}, bookingReference = ''BK-2'', paymentSuccess = False, now = 6\<rparr>"

definition one_GA :: BookingRequest where
  "one_GA = \<lparr>r_tier = GA, r_quantity = 1, r_userId = ''alice''\<rparr>"

text \<open>A state in which an available ticket already has a booking row.\<close>

definition raced_server :: server where
  "raced_server =
     \<lparr>committed = \<lparr>tickets = [ticket 2 GA 10 True],
                    bookings = [\<lparr>b_id = 1, b_ticket_id = 2, b_user_id = ''bob'', b_quantity = 1,
                                 b_total_price = 10, b_payment_status = success,
                                 b_booking_reference = Some ''BK-0'', b_created_at = 4\<rparr>]\<rparr>,
      bookings_id_seq = 1, trace = []\<rparr>"

text \<open>The small server after alice booked one GA ticket.\<close>

definition booked_server :: server where
  "booked_server =
     \<lparr>committed =
        \<lparr>tickets = [ticket 1 VIP 100 True, ticket 3 GA 10 True, ticket 2 GA 10 False],
         bookings = [\<lparr>b_id = 1, b_ticket_id = 2, b_user_id = ''alice'', b_quantity = 1,
                      b_total_price = 10, b_payment_status = success,
                      b_booking_reference = Some ''BK-1'', b_created_at = 5\<rparr>]\<rparr>,
      bookings_id_seq = 1,
      trace = [EvSetIsolation, EvBegin, EvSelectForUpdate GA 1, EvInsertBooking 2,
               EvMarkUnavailable 2, EvSimulatePayment, EvUpdateStatus ''BK-1'', EvCommit]\<rparr>"

section \<open>Statements inside a transaction block\<close>

lemma insert_in_txn:
  assumes "txn c = Some w"
  shows "case query_insert_booking tid uid qty tp ref nw c of
           (Inl err, c1) \<Rightarrow> txn c1 = Some w \<and> committed c1 = committed c
              \<and> trace c1 = trace c @ [EvInsertBooking tid]
         | (Inr row, c1) \<Rightarrow>
              row = \<lparr>b_id = bookings_id_seq c + 1, b_ticket_id = tid, b_user_id = stored uid,
                 b_quantity = qty, b_total_price = tp, b_payment_status = pending,
                 b_booking_reference = Some (stored ref), b_created_at = nw\<rparr>
              \<and> txn c1 = Some (w\<lparr>bookings := bookings w @ [row]\<rparr>)
              \<and> committed c1 = committed c
              \<and> bookings_id_seq c1 = bookings_id_seq c + 1
              \<and> trace c1 = trace c @ [EvInsertBooking tid]
              \<and> tid \<notin> b_ticket_id ` set (bookings w)"
  using assms
  by (simp add: query_insert_booking_def Let_def cur_def put_def record_event_def)

lemma mark_in_txn:
  assumes "txn c = Some w"
  shows "txn (query_mark_unavailable tid c) = Some (w\<lparr>tickets := mark_all {tid} (tickets w)\<rparr>)"
    and "committed (query_mark_unavailable tid c) = committed c"
    and "bookings_id_seq (query_mark_unavailable tid c) = bookings_id_seq c"
    and "trace (query_mark_unavailable tid c) = trace c @ [EvMarkUnavailable tid]"
  using assms
  by (simp_all add: query_mark_unavailable_def Let_def cur_def put_def record_event_def mark_all_def)

lemma mark_all_mark_all: "mark_all A (mark_all B ts) = mark_all (A \<union> B) ts"
  by (induction ts) (auto simp: mark_all_def)

lemma mark_all_ids: "map t_id (mark_all A ts) = map t_id ts"
  by (induction ts) (auto simp: mark_all_def)

section \<open>The loop of createBooking\<close>

lemma insert_bookings_committed:
  "txn c = Some w \<Longrightarrow> committed (snd (insert_bookings e r ts acc c)) = committed c"
proof (induction ts arbitrary: c w acc)
  case Nil
  then show ?case by simp
next
  case (Cons t ts)
  obtain res c1 where q: "query_insert_booking (t_id t) (r_userId r) 1 (t_price t) (bookingReference e) (now e) c = (res, c1)"
    by (cases "query_insert_booking (t_id t) (r_userId r) 1 (t_price t) (bookingReference e) (now e) c")
  show ?case
  proof (cases res)
    case (Inl err)
    with insert_in_txn[OF Cons.prems, of "t_id t" "r_userId r" 1 "t_price t" "bookingReference e" "now e"] q
    show ?thesis by (simp add: query_rollback_def record_event_def)
  next
    case (Inr row)
    with insert_in_txn[OF Cons.prems, of "t_id t" "r_userId r" 1 "t_price t" "bookingReference e" "now e"] q
    have t1: "txn c1 = Some (w\<lparr>bookings := bookings w @ [row]\<rparr>)" and c1: "committed c1 = committed c"
      by simp_all
    from Cons.IH[OF mark_in_txn(1)[OF t1]] mark_in_txn(2)[OF t1] c1 q Inr
    show ?thesis by simp
  qed
qed

lemma insert_bookings_success:
  "txn c = Some w \<Longrightarrow> insert_bookings e r ts acc c = (Inr bs, c') \<Longrightarrow>
     bs = acc @ pending_rows e r (bookings_id_seq c) ts
   \<and> txn c' = Some \<lparr>tickets = mark_all (t_id ` set ts) (tickets w),
                     bookings = bookings w @ pending_rows e r (bookings_id_seq c) ts\<rparr>
   \<and> bookings_id_seq c' = bookings_id_seq c + int (length ts)
   \<and> trace c' = trace c @ claim_events ts"
proof (induction ts arbitrary: c w acc)
  case Nil
  then show ?case by (simp add: mark_all_def)
next
  case (Cons t ts)
  obtain res c1 where q: "query_insert_booking (t_id t) (r_userId r) 1 (t_price t) (bookingReference e) (now e) c = (res, c1)"
    by (cases "query_insert_booking (t_id t) (r_userId r) 1 (t_price t) (bookingReference e) (now e) c")
  show ?case
  proof (cases res)
    case (Inl err)
    with Cons.prems(2) q show ?thesis by (simp split: if_splits)
  next
    case (Inr row)
    with insert_in_txn[OF Cons.prems(1), of "t_id t" "r_userId r" 1 "t_price t" "bookingReference e" "now e"] q
    have row: "row = \<lparr>b_id = bookings_id_seq c + 1, b_ticket_id = t_id t,
                 b_user_id = stored (r_userId r), b_quantity = 1,
                 b_total_price = t_price t, b_payment_status = pending,
                 b_booking_reference = Some (stored (bookingReference e)), b_created_at = now e\<rparr>"
      and t1: "txn c1 = Some (w\<lparr>bookings := bookings w @ [row]\<rparr>)"
      and s1: "bookings_id_seq c1 = bookings_id_seq c + 1"
      and tr1: "trace c1 = trace c @ [EvInsertBooking (t_id t)]"
      by simp_all
    let ?c2 = "query_mark_unavailable (t_id t) c1"
    from Cons.prems(2) q Inr have rec: "insert_bookings e r ts (acc @ [row]) ?c2 = (Inr bs, c')"
      by simp
    from Cons.IH[OF mark_in_txn(1)[OF t1] rec] mark_in_txn(3,4)[OF t1] s1 tr1 row
    show ?thesis by (simp add: mark_all_mark_all Un_commute insert_commute)
  qed
qed

lemma insert_bookings_distinct:
  "txn c = Some w \<Longrightarrow> insert_bookings e r ts acc c = (Inr bs, c') \<Longrightarrow>
   distinct (map b_ticket_id (bookings w)) \<Longrightarrow>
   distinct (map b_ticket_id (bookings w @ pending_rows e r (bookings_id_seq c) ts))"
proof (induction ts arbitrary: c w acc)
  case Nil
  then show ?case by simp
next
  case (Cons t ts)
  obtain res c1 where q: "query_insert_booking (t_id t) (r_userId r) 1 (t_price t) (bookingReference e) (now e) c = (res, c1)"
    by (cases "query_insert_booking (t_id t) (r_userId r) 1 (t_price t) (bookingReference e) (now e) c")
  show ?case
  proof (cases res)
    case (Inl err)
    with Cons.prems(2) q show ?thesis by (simp split: if_splits)
  next
    case (Inr row)
    with insert_in_txn[OF Cons.prems(1), of "t_id t" "r_userId r" 1 "t_price t" "bookingReference e" "now e"] q
    have row: "row = \<lparr>b_id = bookings_id_seq c + 1, b_ticket_id = t_id t,
                 b_user_id = stored (r_userId r), b_quantity = 1,
                 b_total_price = t_price t, b_payment_status = pending,
                 b_booking_reference = Some (stored (bookingReference e)), b_created_at = now e\<rparr>"
      and t1: "txn c1 = Some (w\<lparr>bookings := bookings w @ [row]\<rparr>)"
      and s1: "bookings_id_seq c1 = bookings_id_seq c + 1"
      and fresh: "t_id t \<notin> b_ticket_id ` set (bookings w)"
      by simp_all
    let ?c2 = "query_mark_unavailable (t_id t) c1"
    let ?w2 = "w\<lparr>bookings := bookings w @ [row], tickets := mark_all {t_id t} (tickets w)\<rparr>"
    from Cons.prems(2) q Inr have rec: "insert_bookings e r ts (acc @ [row]) ?c2 = (Inr bs, c')"
      by simp
    have t2: "txn ?c2 = Some ?w2" using mark_in_txn(1)[OF t1] by simp
    have d2: "distinct (map b_ticket_id (bookings ?w2))"
      using Cons.prems(3) fresh row by simp
    from Cons.IH[OF t2 rec d2] mark_in_txn(3)[OF t1] s1 row
    show ?thesis by simp
  qed
qed

lemma insert_bookings_failure:
  "insert_bookings e r ts acc c = (Inl err, c') \<Longrightarrow>
     err \<noteq> PaymentFailed \<and> (\<forall>q n. err \<noteq> InsufficientTickets q n)
   \<and> (\<exists>evs. trace c' = trace c @ evs \<and> EvSimulatePayment \<notin> set evs)"
proof (induction ts arbitrary: c acc)
  case Nil
  then show ?case by simp
next
  case (Cons t ts)
  obtain res c1 where q: "query_insert_booking (t_id t) (r_userId r) 1 (t_price t) (bookingReference e) (now e) c = (res, c1)"
    by (cases "query_insert_booking (t_id t) (r_userId r) 1 (t_price t) (bookingReference e) (now e) c")
  have tr1: "trace c1 = trace c @ [EvInsertBooking (t_id t)]"
    using q by (auto simp: query_insert_booking_def Let_def put_def record_event_def
        split: if_splits option.splits)
  show ?case
  proof (cases res)
    case (Inl pe)
    with Cons.prems q tr1 show ?thesis
      by (auto simp: query_rollback_def record_event_def split: if_splits)
  next
    case (Inr row)
    let ?c2 = "query_mark_unavailable (t_id t) c1"
    from Cons.prems q Inr have rec: "insert_bookings e r ts (acc @ [row]) ?c2 = (Inl err, c')"
      by simp
    have tr2: "trace ?c2 = trace c @ [EvInsertBooking (t_id t), EvMarkUnavailable (t_id t)]"
      using tr1 by (simp add: query_mark_unavailable_def Let_def put_def record_event_def
          split: option.splits)
    from Cons.IH[OF rec] obtain evs where
      "err \<noteq> PaymentFailed" "\<forall>q n. err \<noteq> InsufficientTickets q n"
      "trace c' = trace ?c2 @ evs" "EvSimulatePayment \<notin> set evs" by blast
    then show ?thesis using tr2 by auto
  qed
qed

lemma fits_varchar255_iff: "fits_varchar255 x \<longleftrightarrow> \<not> has_nul x \<and> \<not> overlong x"
  by (simp add: fits_varchar255_def has_nul_def overlong_def list_all_iff)

lemma insert_bookings_conflict:
  "txn c = Some w \<Longrightarrow> fits_varchar255 (r_userId r) \<Longrightarrow> fits_varchar255 (bookingReference e) \<Longrightarrow>
   t_id ` set ts \<subseteq> t_id ` set (tickets w) \<Longrightarrow>
   \<exists>t \<in> set ts. t_id t \<in> b_ticket_id ` set (bookings w) \<Longrightarrow>
   fst (insert_bookings e r ts acc c) = Inl AlreadyBooked"
proof (induction ts arbitrary: c w acc)
  case Nil
  then show ?case by simp
next
  case (Cons t ts)
  let ?q = "query_insert_booking (t_id t) (r_userId r) 1 (t_price t) (bookingReference e) (now e) c"
  show ?case
  proof (cases "t_id t \<in> b_ticket_id ` set (bookings w)
                \<or> Some (stored (bookingReference e)) \<in> b_booking_reference ` set (bookings w)")
    case True
    then have "fst ?q = Inl (PgError ''23505'')"
      using Cons.prems(1,2,3)
      by (auto simp: query_insert_booking_def Let_def cur_def fits_varchar255_iff)
    then show ?thesis by (cases ?q) simp
  next
    case False
    obtain row c1 where q: "?q = (Inr row, c1)"
      using False Cons.prems(1,2,3,4)
      by (auto simp: query_insert_booking_def Let_def cur_def fits_varchar255_iff)
    with insert_in_txn[OF Cons.prems(1), of "t_id t" "r_userId r" 1 "t_price t" "bookingReference e" "now e"]
    have t1: "txn c1 = Some (w\<lparr>bookings := bookings w @ [row]\<rparr>)" by simp
    let ?w2 = "w\<lparr>bookings := bookings w @ [row], tickets := mark_all {t_id t} (tickets w)\<rparr>"
    have t2: "txn (query_mark_unavailable (t_id t) c1) = Some ?w2"
      using mark_in_txn(1)[OF t1] by simp
    have ids: "t_id ` set ts \<subseteq> t_id ` set (tickets ?w2)"
      using Cons.prems(4) by (simp add: mark_all_ids flip: set_map)
    have ex: "\<exists>u \<in> set ts. t_id u \<in> b_ticket_id ` set (bookings ?w2)"
      using Cons.prems(5) False by auto
    from Cons.IH[OF t2 Cons.prems(2,3) ids ex] q show ?thesis by simp
  qed
qed

section \<open>createBooking, path by path\<close>

lemma claim_tickets_unfold:
  "claim_tickets e r (pool_connect s) =
     (case limit_error (r_quantity r) of
        Some sqlstate \<Rightarrow> (Inl (DbFailure sqlstate), selecting e r s)
      | None \<Rightarrow>
          if int (length (selected e r (committed s))) < r_quantity r
          then (Inl (InsufficientTickets (r_quantity r) (length (selected e r (committed s)))),
                query_rollback (selecting e r s))
          else (case insert_bookings e r (selected e r (committed s)) [] (selecting e r s) of
                  (Inl err, c2) \<Rightarrow> (Inl err, c2)
                | (Inr bs, c2) \<Rightarrow> (Inr (selected e r (committed s), bs), c2)))"
  unfolding selecting_def selected_def
  by (cases "limit_error (r_quantity r)")
     (simp_all add: claim_tickets_def getAvailableTickets_def query_select_for_update_def
       Let_def query_begin_def query_set_isolation_def record_event_def pool_connect_def cur_def)

lemma limit_error_None: "limit_error q = None \<longleftrightarrow> 0 \<le> q \<and> q < 2 ^ 63"
  by (auto simp: limit_error_def)

lemma txn_selecting: "txn (selecting e r s) = Some (committed s)"
  and committed_selecting: "committed (selecting e r s) = committed s"
  and seq_selecting: "bookings_id_seq (selecting e r s) = bookings_id_seq s"
  and trace_selecting: "trace (selecting e r s) =
        trace s @ [EvSetIsolation, EvBegin, EvSelectForUpdate (r_tier r) (r_quantity r)]"
  by (simp_all add: selecting_def)

lemma length_selected: "length (selected e r d) \<le> nat (r_quantity r)"
  by (simp add: selected_def)

lemma createBooking_limit_error:
  "limit_error (r_quantity r) = Some sqlstate \<Longrightarrow>
   createBooking e r s =
     (Inl (DbFailure sqlstate),
      s\<lparr>trace := trace s @ [EvSetIsolation, EvBegin,
                             EvSelectForUpdate (r_tier r) (r_quantity r), EvRollback]\<rparr>)"
  by (simp add: createBooking_def createBooking_on_def claim_tickets_unfold catch_rollback_def
      selecting_def query_rollback_def record_event_def release_def)

lemma createBooking_insufficient:
  "limit_error (r_quantity r) = None \<Longrightarrow>
   int (length (selected e r (committed s))) < r_quantity r \<Longrightarrow>
   createBooking e r s =
     (Inl (InsufficientTickets (r_quantity r) (length (selected e r (committed s)))),
      s\<lparr>trace := trace s @ [EvSetIsolation, EvBegin,
                             EvSelectForUpdate (r_tier r) (r_quantity r), EvRollback, EvRollback]\<rparr>)"
  by (simp add: createBooking_def createBooking_on_def claim_tickets_unfold catch_rollback_def
      selecting_def query_rollback_def record_event_def release_def)

lemma createBooking_loop_failed:
  assumes "limit_error (r_quantity r) = None"
    and "\<not> int (length (selected e r (committed s))) < r_quantity r"
    and "insert_bookings e r (selected e r (committed s)) [] (selecting e r s) = (Inl err, c2)"
  shows "createBooking e r s = (Inl err, release (query_rollback c2))"
  using assms
  by (simp add: createBooking_def createBooking_on_def claim_tickets_unfold catch_rollback_def)

lemma createBooking_declined:
  assumes "limit_error (r_quantity r) = None"
    and "\<not> int (length (selected e r (committed s))) < r_quantity r"
    and "insert_bookings e r (selected e r (committed s)) [] (selecting e r s) = (Inr bs, c2)"
    and "\<not> paymentSuccess e"
  shows "createBooking e r s =
           (Inl PaymentFailed,
            release (query_rollback (query_rollback (record_event EvSimulatePayment c2))))"
  using assms
  by (simp add: createBooking_def createBooking_on_def claim_tickets_unfold catch_rollback_def
      confirm_bookings_def Let_def)

lemma createBooking_paid:
  assumes "limit_error (r_quantity r) = None"
    and "\<not> int (length (selected e r (committed s))) < r_quantity r"
    and "insert_bookings e r (selected e r (committed s)) [] (selecting e r s) = (Inr bs, c2)"
    and "paymentSuccess e"
  shows "createBooking e r s =
           (Inr (map (\<lambda>b. b\<lparr>b_payment_status := success\<rparr>) bs),
            release (query_commit (query_update_status (bookingReference e)
                        (record_event EvSimulatePayment c2))))"
  using assms
  by (simp add: createBooking_def createBooking_on_def claim_tickets_unfold catch_rollback_def
      confirm_bookings_def Let_def)

lemma committed_release_rollback: "committed (release (query_rollback c)) = committed c"
  by (simp add: release_def query_rollback_def record_event_def)

lemma createBooking_failed_committed:
  assumes "fst (createBooking e r s) = Inl err"
  shows "committed (snd (createBooking e r s)) = committed s"
proof (cases "limit_error (r_quantity r)")
  case (Some sqlstate)
  then show ?thesis by (simp add: createBooking_limit_error)
next
  case nonneg: None
  show ?thesis
  proof (cases "int (length (selected e r (committed s))) < r_quantity r")
    case True
    with nonneg show ?thesis by (simp add: createBooking_insufficient)
  next
    case enough: False
    obtain res c2 where
      l: "insert_bookings e r (selected e r (committed s)) [] (selecting e r s) = (res, c2)"
      by (cases "insert_bookings e r (selected e r (committed s)) [] (selecting e r s)")
    have c2: "committed c2 = committed s"
      using insert_bookings_committed[of "selecting e r s" "committed s" e r "selected e r (committed s)" "[]", OF txn_selecting] l
      by (simp add: committed_selecting)
    show ?thesis
    proof (cases res)
      case (Inl err')
      with createBooking_loop_failed[of r e s err' c2] nonneg enough l c2
      show ?thesis by (simp add: committed_release_rollback)
    next
      case (Inr bs)
      show ?thesis
      proof (cases "paymentSuccess e")
        case True
        with createBooking_paid[of r e s bs c2] nonneg enough l Inr assms
        show ?thesis by simp
      next
        case False
        with createBooking_declined[of r e s bs c2] nonneg enough l Inr c2
        show ?thesis
          by (simp add: release_def query_rollback_def record_event_def)
      qed
    qed
  qed
qed

lemma createBooking_succeeded:
  assumes "fst (createBooking e r s) = Inr out"
  shows "paymentSuccess e \<and> int (length (selected e r (committed s))) = r_quantity r
    \<and> out = map (\<lambda>b. b\<lparr>b_payment_status := success\<rparr>)
                (pending_rows e r (bookings_id_seq s) (selected e r (committed s)))
    \<and> committed (snd (createBooking e r s)) =
        \<lparr>tickets = mark_all (t_id ` set (selected e r (committed s))) (tickets (committed s)),
         bookings = confirmed_rows (bookingReference e)
            (bookings (committed s)
               @ pending_rows e r (bookings_id_seq s) (selected e r (committed s)))\<rparr>
    \<and> bookings_id_seq (snd (createBooking e r s))
        = bookings_id_seq s + int (length (selected e r (committed s)))
    \<and> trace (snd (createBooking e r s)) =
        trace s @ [EvSetIsolation, EvBegin, EvSelectForUpdate (r_tier r) (r_quantity r)]
          @ claim_events (selected e r (committed s))
          @ [EvSimulatePayment, EvUpdateStatus (bookingReference e), EvCommit]
    \<and> (distinct (map b_ticket_id (bookings (committed s)))
       \<longrightarrow> distinct (map b_ticket_id (bookings (committed (snd (createBooking e r s))))))"
proof (cases "limit_error (r_quantity r)")
  case (Some sqlstate)
  with assms show ?thesis by (simp add: createBooking_limit_error)
next
  case nonneg: None
  show ?thesis
  proof (cases "int (length (selected e r (committed s))) < r_quantity r")
    case True
    with nonneg assms show ?thesis by (simp add: createBooking_insufficient)
  next
    case enough: False
    let ?sel = "selected e r (committed s)"
    have len: "int (length ?sel) = r_quantity r"
      using enough nonneg[unfolded limit_error_None] length_selected[of e r "committed s"]
      by linarith
    obtain res c2 where
      l: "insert_bookings e r ?sel [] (selecting e r s) = (res, c2)"
      by (cases "insert_bookings e r ?sel [] (selecting e r s)")
    show ?thesis
    proof (cases res)
      case (Inl err')
      with createBooking_loop_failed[of r e s err' c2] nonneg enough l assms
      show ?thesis by simp
    next
      case (Inr bs)
      show ?thesis
      proof (cases "paymentSuccess e")
        case False
        with createBooking_declined[of r e s bs c2] nonneg enough l Inr assms
        show ?thesis by simp
      next
        case True
        from insert_bookings_success[of "selecting e r s" "committed s" e r ?sel "[]" bs c2, OF txn_selecting] l Inr
        have bs: "bs = pending_rows e r (bookings_id_seq s) ?sel"
          and t2: "txn c2 = Some \<lparr>tickets = mark_all (t_id ` set ?sel) (tickets (committed s)),
                     bookings = bookings (committed s) @ pending_rows e r (bookings_id_seq s) ?sel\<rparr>"
          and s2: "bookings_id_seq c2 = bookings_id_seq s + int (length ?sel)"
          and tr2: "trace c2 = trace (selecting e r s) @ claim_events ?sel"
          by (simp_all add: seq_selecting)
        have d: "distinct (map b_ticket_id (bookings (committed s))) \<Longrightarrow>
              distinct (map b_ticket_id (bookings (committed s) @ pending_rows e r (bookings_id_seq s) ?sel))"
          using insert_bookings_distinct[of "selecting e r s" "committed s" e r ?sel "[]" bs c2, OF txn_selecting] l Inr
          by (simp add: seq_selecting)
        have ids: "map b_ticket_id (confirmed_rows ref xs) = map b_ticket_id xs" for ref xs
          by (induction xs) (simp_all add: confirmed_rows_def)
        from createBooking_paid[of r e s bs c2] nonneg enough l Inr True
        have cb: "createBooking e r s =
           (Inr (map (\<lambda>b. b\<lparr>b_payment_status := success\<rparr>) bs),
            release (query_commit (query_update_status (bookingReference e)
                        (record_event EvSimulatePayment c2))))" by simp
        have out: "out = map (\<lambda>b. b\<lparr>b_payment_status := success\<rparr>) bs"
          using cb assms by simp
        have st: "committed (snd (createBooking e r s)) =
           \<lparr>tickets = mark_all (t_id ` set ?sel) (tickets (committed s)),
            bookings = confirmed_rows (bookingReference e)
              (bookings (committed s) @ pending_rows e r (bookings_id_seq s) ?sel)\<rparr>"
          using t2 by (simp add: cb release_def query_commit_def query_update_status_def
              record_event_def cur_def put_def Let_def confirmed_rows_def)
        have sq: "bookings_id_seq (snd (createBooking e r s)) = bookings_id_seq s + int (length ?sel)"
          using t2 s2 by (simp add: cb release_def query_commit_def query_update_status_def
              record_event_def cur_def put_def Let_def)
        have tr: "trace (snd (createBooking e r s)) =
            trace s @ [EvSetIsolation, EvBegin, EvSelectForUpdate (r_tier r) (r_quantity r)]
              @ claim_events ?sel @ [EvSimulatePayment, EvUpdateStatus (bookingReference e), EvCommit]"
          using t2 tr2 by (simp add: cb release_def query_commit_def query_update_status_def
              record_event_def cur_def put_def Let_def trace_selecting)
        show ?thesis using True len out bs st sq tr d by (simp add: ids)
      qed
    qed
  qed
qed

lemma set_selected: "set (selected e r d) \<subseteq> {t \<in> set (tickets d). candidate (locked e) (r_tier r) t}"
proof
  fix t assume "t \<in> set (selected e r d)"
  then have "t \<in> set (sort_key t_id (filter (candidate (locked e) (r_tier r)) (tickets d)))"
    unfolding selected_def by (rule in_set_takeD)
  then show "t \<in> {t \<in> set (tickets d). candidate (locked e) (r_tier r) t}" by simp
qed

lemma createBooking_failed_rolled_back:
  assumes "fst (createBooking e r s) = Inl err"
  shows "\<exists>evs. trace (snd (createBooking e r s)) = evs @ [EvRollback]"
proof -
  obtain res c where x: "(case claim_tickets e r (pool_connect s) of
          (Inl err, c1) \<Rightarrow> (Inl err, c1)
        | (Inr (ts, bs), c1) \<Rightarrow> confirm_bookings e bs c1) = (res, c)"
    by (cases "(case claim_tickets e r (pool_connect s) of
          (Inl err, c1) \<Rightarrow> (Inl err, c1)
        | (Inr (ts, bs), c1) \<Rightarrow> confirm_bookings e bs c1)") 
  show ?thesis
  proof (cases res)
    case (Inl a)
    with x have "snd (createBooking e r s) = release (query_rollback c)"
      by (simp add: createBooking_def createBooking_on_def catch_rollback_def)
    then show ?thesis by (simp add: release_def query_rollback_def record_event_def)
  next
    case (Inr b)
    with x assms show ?thesis
      by (simp add: createBooking_def createBooking_on_def catch_rollback_def)
  qed
qed

section \<open>The availability flag\<close>

lemma kept_or_cleared_refl: "kept_or_cleared a a"
  by (simp add: kept_or_cleared_def)

lemma kept_or_cleared_trans:
  "kept_or_cleared a b \<Longrightarrow> kept_or_cleared b c \<Longrightarrow> kept_or_cleared a c"
  by (auto simp: kept_or_cleared_def)

lemma kept_or_cleared_mark_all: "list_all2 kept_or_cleared ts (mark_all A ts)"
  by (induction ts) (simp_all add: mark_all_def kept_or_cleared_def)

lemma createBooking_flags:
  "list_all2 kept_or_cleared (tickets (committed s)) (tickets (committed (snd (createBooking e r s))))"
proof (cases "fst (createBooking e r s)")
  case (Inl err)
  then show ?thesis
    by (simp add: createBooking_failed_committed list_all2_refl kept_or_cleared_refl)
next
  case (Inr out)
  from createBooking_succeeded[OF this] show ?thesis
    by (simp add: kept_or_cleared_mark_all)
qed

lemma run_flags:
  "list_all2 kept_or_cleared (tickets (committed s)) (tickets (committed (run s as)))"
proof (induction as arbitrary: s)
  case Nil
  show ?case by (simp add: list_all2_refl kept_or_cleared_refl)
next
  case (Cons a as)
  obtain e r where a: "a = (e, r)" by (cases a)
  have "list_all2 kept_or_cleared (tickets (committed s))
          (tickets (committed (run (snd (createBooking e r s)) as)))"
    using createBooking_flags[of s e r] Cons.IH[of "snd (createBooking e r s)"]
    by (rule list_all2_trans[rotated]) (rule kept_or_cleared_trans)
  then show ?case by (simp add: a)
qed

section \<open>The unique constraint on ticket ids\<close>

lemma createBooking_distinct:
  assumes "distinct (map b_ticket_id (bookings (committed s)))"
  shows "distinct (map b_ticket_id (bookings (committed (snd (createBooking e r s)))))"
proof (cases "fst (createBooking e r s)")
  case (Inl err)
  then show ?thesis using assms by (simp add: createBooking_failed_committed)
next
  case (Inr out)
  from createBooking_succeeded[OF this] assms show ?thesis by blast
qed

lemma run_distinct:
  "distinct (map b_ticket_id (bookings (committed s))) \<Longrightarrow>
   distinct (map b_ticket_id (bookings (committed (run s as))))"
proof (induction as arbitrary: s)
  case Nil
  then show ?case by simp
next
  case (Cons a as)
  obtain e r where a: "a = (e, r)" by (cases a)
  from Cons.IH[OF createBooking_distinct[OF Cons.prems, of e r]] show ?case by (simp add: a)
qed

lemma distinct_count_le_1:
  "distinct (map f xs) \<Longrightarrow> length (filter (\<lambda>x. f x = k \<and> P x) xs) \<le> Suc 0"
proof (induction xs)
  case Nil
  then show ?case by simp
next
  case (Cons x xs)
  show ?case
  proof (cases "f x = k")
    case True
    have "f x \<notin> f ` set xs" using Cons.prems by simp
    then have "\<forall>y \<in> set xs. f y \<noteq> k" using True by blast
    then have "filter (\<lambda>x. f x = k \<and> P x) xs = []"
      by (simp add: filter_empty_conv)
    then show ?thesis by simp
  next
    case False
    then show ?thesis using Cons by simp
  qed
qed

section \<open>The trace of an attempt\<close>

lemma payments_append: "payments (xs @ ys) = payments xs + payments ys"
  by (simp add: payments_def)

lemma payments_Nil: "payments [] = 0"
  by (simp add: payments_def)

lemma payments_Cons:
  "payments (ev # evs) = (if ev = EvSimulatePayment then 1 else 0) + payments evs"
  by (simp add: payments_def)

lemma payments_none: "EvSimulatePayment \<notin> set evs \<Longrightarrow> payments evs = 0"
  by (induction evs) (auto simp: payments_def)

lemma claim_events_no_payment: "EvSimulatePayment \<notin> set (claim_events ts)"
  by (induction ts) auto

lemma pending_rows_ids: "map b_ticket_id (pending_rows e r n ts) = map t_id ts"
  by (induction ts arbitrary: n) auto

lemma pending_rows_pending: "b \<in> set (pending_rows e r n ts) \<Longrightarrow> b_payment_status b = pending"
  by (induction ts arbitrary: n) auto

lemma mark_all_unavailable:
  "u \<in> set (mark_all A ts) \<Longrightarrow> t_id u \<in> A \<Longrightarrow> \<not> t_available u"
  by (induction ts) (auto simp: mark_all_def split: if_splits)

lemma claim_tickets_failed:
  assumes "claim_tickets e r (pool_connect s) = (Inl err, c)"
  shows "fst (createBooking e r s) = Inl err
     \<and> (\<exists>evs. trace (snd (createBooking e r s)) = trace s @ evs \<and> EvSimulatePayment \<notin> set evs)"
proof -
  have cb: "createBooking e r s = (Inl err, release (query_rollback c))"
    using assms by (simp add: createBooking_def createBooking_on_def catch_rollback_def)
  have "\<exists>evs. trace c = trace s @ evs \<and> EvSimulatePayment \<notin> set evs"
  proof (cases "limit_error (r_quantity r)")
    case (Some sqlstate)
    with assms have "c = selecting e r s" by (simp add: claim_tickets_unfold)
    then show ?thesis by (simp add: trace_selecting)
  next
    case nonneg: None
    show ?thesis
    proof (cases "int (length (selected e r (committed s))) < r_quantity r")
      case True
      with nonneg assms have "c = query_rollback (selecting e r s)"
        by (simp add: claim_tickets_unfold)
      then show ?thesis by (simp add: trace_selecting query_rollback_def record_event_def)
    next
      case False
      with nonneg assms
      have "insert_bookings e r (selected e r (committed s)) [] (selecting e r s) = (Inl err, c)"
        by (simp add: claim_tickets_unfold split: prod.splits sum.splits)
      from insert_bookings_failure[OF this] obtain evs where
        "trace c = trace (selecting e r s) @ evs" "EvSimulatePayment \<notin> set evs" by blast
      then show ?thesis by (simp add: trace_selecting)
    qed
  qed
  then obtain evs where "trace c = trace s @ evs" "EvSimulatePayment \<notin> set evs" by blast
  then have "trace (release (query_rollback c)) = trace s @ (evs @ [EvRollback])
      \<and> EvSimulatePayment \<notin> set (evs @ [EvRollback])"
    by (simp add: release_def query_rollback_def record_event_def)
  then show ?thesis using cb by (metis fst_conv snd_conv)
qed

lemma claim_tickets_claimed:
  assumes "claim_tickets e r (pool_connect s) = (Inr (ts, bs), c)"
  shows "ts = selected e r (committed s) \<and> int (length ts) = r_quantity r
     \<and> bs = pending_rows e r (bookings_id_seq s) ts
     \<and> txn c = Some \<lparr>tickets = mark_all (t_id ` set ts) (tickets (committed s)),
                       bookings = bookings (committed s) @ bs\<rparr>
     \<and> committed c = committed s
     \<and> trace c = trace s @ [EvSetIsolation, EvBegin, EvSelectForUpdate (r_tier r) (r_quantity r)]
                    @ claim_events ts"
proof -
  let ?sel = "selected e r (committed s)"
  have nonneg: "limit_error (r_quantity r) = None"
    and enough: "\<not> int (length ?sel) < r_quantity r"
    using assms by (auto simp: claim_tickets_unfold split: if_splits option.splits)
  with assms have l: "insert_bookings e r ?sel [] (selecting e r s) = (Inr bs, c)" and ts: "ts = ?sel"
    by (auto simp: claim_tickets_unfold split: prod.splits sum.splits)
  have len: "int (length ?sel) = r_quantity r"
    using enough nonneg[unfolded limit_error_None] length_selected[of e r "committed s"]
    by linarith
  have cm: "committed c = committed s"
    using insert_bookings_committed[of "selecting e r s" "committed s" e r ?sel "[]", OF txn_selecting] l
    by (simp add: committed_selecting)
  from insert_bookings_success[of "selecting e r s" "committed s" e r ?sel "[]" bs c, OF txn_selecting l]
  show ?thesis using ts len cm by (simp add: seq_selecting trace_selecting)
qed

lemma createBooking_after_claim:
  assumes "claim_tickets e r (pool_connect s) = (Inr (ts, bs), c)"
  shows "trace (snd (createBooking e r s)) =
           trace c @ EvSimulatePayment #
             (if paymentSuccess e then [EvUpdateStatus (bookingReference e), EvCommit]
              else [EvRollback, EvRollback])"
  using assms claim_tickets_claimed[OF assms]
  by (simp add: createBooking_def createBooking_on_def catch_rollback_def confirm_bookings_def
      Let_def release_def query_commit_def query_rollback_def query_update_status_def
      record_event_def put_def cur_def)

section \<open>Runs of the examples\<close>

lemmas createBooking_eval =
  createBooking_def createBooking_on_def claim_tickets_def getAvailableTickets_def
  query_select_for_update_def catch_rollback_def confirm_bookings_def
  query_insert_booking_def query_mark_unavailable_def query_update_status_def
  query_begin_def query_set_isolation_def query_commit_def query_rollback_def
  record_event_def pool_connect_def release_def cur_def put_def candidate_def Let_def
  limit_error_def has_nul_def overlong_def stored_def

lemmas example_defs =
  small_server_def small_db_def ticket_def paying_def declined_def one_GA_def raced_server_def

lemma paying_one_GA:
  "createBooking paying one_GA small_server =
     (Inr [\<lparr>b_id = 1, b_ticket_id = 2, b_user_id = ''alice'', b_quantity = 1,
            b_total_price = 10, b_payment_status = success,
            b_booking_reference = Some ''BK-1'', b_created_at = 5\<rparr>], booked_server)"
  by (simp add: createBooking_eval example_defs booked_server_def)

lemma declined_one_GA:
  "createBooking declined one_GA small_server =
     (Inl PaymentFailed,
      small_server\<lparr>bookings_id_seq := 1,
        trace := [EvSetIsolation, EvBegin, EvSelectForUpdate GA 1, EvInsertBooking 2,
                  EvMarkUnavailable 2, EvSimulatePayment, EvRollback, EvRollback]\<rparr>)"
  by (simp add: createBooking_eval example_defs)

lemma paying_again:
  "createBooking paying one_GA booked_server =
     (Inl AlreadyBooked,
      booked_server\<lparr>bookings_id_seq := 2,
        trace := trace booked_server @ [EvSetIsolation, EvBegin, EvSelectForUpdate GA 1,
                  EvInsertBooking 3, EvRollback, EvRollback]\<rparr>)"
  by (simp add: createBooking_eval example_defs booked_server_def)

lemma declined_after_paying:
  "createBooking declined one_GA booked_server =
     (Inl PaymentFailed,
      booked_server\<lparr>bookings_id_seq := 2,
        trace := trace booked_server @ [EvSetIsolation, EvBegin, EvSelectForUpdate GA 1,
                  EvInsertBooking 3, EvMarkUnavailable 3, EvSimulatePayment, EvRollback, EvRollback]\<rparr>)"
  by (simp add: createBooking_eval example_defs booked_server_def)

lemma paying_fresh_reference:
  "fst (createBooking (paying\<lparr>bookingReference := ''BK-3''\<rparr>) one_GA booked_server) =
     Inr [\<lparr>b_id = 2, b_ticket_id = 3, b_user_id = ''alice'', b_quantity = 1,
            b_total_price = 10, b_payment_status = success,
            b_booking_reference = Some ''BK-3'', b_created_at = 5\<rparr>]"
  by (simp add: createBooking_eval example_defs booked_server_def)

lemma paying_raced:
  "createBooking paying one_GA raced_server =
     (Inl AlreadyBooked,
      raced_server\<lparr>bookings_id_seq := 2,
        trace := [EvSetIsolation, EvBegin, EvSelectForUpdate GA 1,
                  EvInsertBooking 2, EvRollback, EvRollback]\<rparr>)"
  by (simp add: createBooking_eval example_defs)

lemma paying_two_GA:
  "createBooking paying (one_GA\<lparr>r_quantity := 2\<rparr>) small_server =
     (Inl AlreadyBooked,
      small_server\<lparr>bookings_id_seq := 2,
        trace := [EvSetIsolation, EvBegin, EvSelectForUpdate GA 2,
                  EvInsertBooking 2, EvMarkUnavailable 2, EvInsertBooking 3,
                  EvRollback, EvRollback]\<rparr>)"
  by (simp add: createBooking_eval example_defs)

text \<open>Statements the server refuses before it reaches a constraint of the table.\<close>

lemma nul_user_id_raced:
  "createBooking paying (one_GA\<lparr>r_userId := [CHR ''a'', CHR 0x00, CHR ''b'']\<rparr>) raced_server =
     (Inl (DbFailure ''22021''),
      raced_server\<lparr>trace := [EvSetIsolation, EvBegin, EvSelectForUpdate GA 1,
                  EvInsertBooking 2, EvRollback]\<rparr>)"
  by (simp add: createBooking_eval example_defs)

lemma limit_out_of_range:
  "createBooking paying (one_GA\<lparr>r_quantity := 2 ^ 63\<rparr>) small_server =
     (Inl (DbFailure ''22003''),
      small_server\<lparr>trace := [EvSetIsolation, EvBegin, EvSelectForUpdate GA (2 ^ 63),
                  EvRollback]\<rparr>)"
  by (simp add: createBooking_eval example_defs)

lemma overlong_user_id:
  "createBooking paying (one_GA\<lparr>r_userId := replicate 256 CHR ''a''\<rparr>) small_server =
     (Inl (DbFailure ''22001''),
      small_server\<lparr>trace := [EvSetIsolation, EvBegin, EvSelectForUpdate GA 1,
                  EvInsertBooking 2, EvRollback]\<rparr>)"
  by (simp add: createBooking_eval example_defs list_all_iff)

lemma blank_padded_user_id:
  "fst (createBooking paying (one_GA\<lparr>r_userId := replicate 255 CHR ''a'' @ '' ''\<rparr>) small_server) =
     Inr [\<lparr>b_id = 1, b_ticket_id = 2, b_user_id = replicate 255 CHR ''a'', b_quantity = 1,
            b_total_price = 10, b_payment_status = success,
            b_booking_reference = Some ''BK-1'', b_created_at = 5\<rparr>]"
  by (simp add: createBooking_eval example_defs list_all_iff)

section \<open>Selection\<close>

lemma map_insort_key: "map f (insort_key f x xs) = insort (f x) (map f xs)"
  by (induction xs) simp_all

lemma map_sort_key: "map f (sort_key f xs) = sort (map f xs)"
  by (induction xs) (simp_all add: map_insort_key)

lemma sorted_take_le_drop:
  assumes "sorted (map f xs)" "x \<in> set (take n xs)" "y \<in> set (drop n xs)"
  shows "f x \<le> f y"
proof -
  have "sorted (map f (take n xs) @ map f (drop n xs))"
    using assms(1) by (metis append_take_drop_id map_append)
  then have "\<forall>a \<in> set (map f (take n xs)). \<forall>b \<in> set (map f (drop n xs)). a \<le> b"
    by (simp add: sorted_append)
  with assms(2,3) show ?thesis by simp
qed

section \<open>Validation of a request\<close>

lemma parse_tier_None:
  "parse_tier j = None \<longleftrightarrow>
     j \<notin> {Some (JStr ''VIP''), Some (JStr ''Front Row''), Some (JStr ''GA'')}"
  by (auto simp: parse_tier_def split: option.splits json.splits)

lemma parse_quantity_None:
  "parse_quantity j = None \<longleftrightarrow>
     (case j of Some (JNum q) \<Rightarrow> q \<notin> \<int> \<or> q < 1 \<or> 100 < q | _ \<Rightarrow> True)"
  by (auto simp: parse_quantity_def Ints_def split: option.splits json.splits)

lemma parse_userId_None:
  "parse_userId j = None \<longleftrightarrow> (case j of Some (JStr u) \<Rightarrow> u = [] | _ \<Rightarrow> True)"
  by (auto simp: parse_userId_def Suc_le_eq split: option.splits json.splits)

lemma safeParse_None:
  "bookingRequestSchema_safeParse body = None \<longleftrightarrow> spec_invalid_request body"
proof (cases body)
  case (JObj kvs)
  have "bookingRequestSchema_safeParse (JObj kvs) = None \<longleftrightarrow>
      parse_tier (field kvs ''tier'') = None \<or> parse_quantity (field kvs ''quantity'') = None
      \<or> parse_userId (field kvs ''userId'') = None"
    by (auto simp: bookingRequestSchema_safeParse_def split: option.splits)
  then show ?thesis
    unfolding JObj parse_tier_None parse_quantity_None parse_userId_None
    by (simp add: spec_invalid_request_def)
qed (simp_all add: bookingRequestSchema_safeParse_def spec_invalid_request_def)

section \<open>The availability report\<close>

lemma fold_upd_rows:
  "fold (\<lambda>(tr, total, avail, p) m.
            m(tr \<mapsto> \<lparr>a_available = avail, a_total = total, a_price = p\<rparr>))
        (map (\<lambda>tr. (tr, f tr, g tr, h tr)) ks) m0
   = (\<lambda>k. if k \<in> set ks then Some \<lparr>a_available = g k, a_total = f k, a_price = h k\<rparr> else m0 k)"
  by (induction ks arbitrary: m0) (auto simp: fun_eq_iff)

lemma availability_lookup:
  "fold (\<lambda>(tr, total, avail, p) m.
            m(tr \<mapsto> \<lparr>a_available = avail, a_total = total, a_price = p\<rparr>))
        (query_group_by_tier d) Map.empty tr
   = (if tr \<in> t_tier ` set (tickets d) then Some (tier_entry d tr) else None)"
  unfolding query_group_by_tier_def Let_def
  by (simp add: fold_upd_rows tier_entry_def Let_def)

lemma entry_getTicketAvailability:
  "entry (getTicketAvailability d) tr =
     or_default (if tr \<in> t_tier ` set (tickets d) then Some (tier_entry d tr) else None)
        (default_price tr)"
  by (cases tr) (simp_all add: getTicketAvailability_def Let_def availability_lookup)

lemma max_price_const:
  "ps \<noteq> [] \<Longrightarrow> \<forall>q \<in> set ps. q = p \<Longrightarrow> max_price ps = p"
  by (induction ps rule: max_price.induct) auto

lemma no_ticket_filter: "tr \<notin> t_tier ` set ts \<Longrightarrow> filter (\<lambda>t. t_tier t = tr) ts = []"
  by (induction ts) auto

section \<open>The claims\<close>

text \<open>
  Claim C1. No ticket is ever booked twice. Starting from tables that satisfy the unique
  constraint on \<^verbatim>\<open>bookings.ticket_id\<close>, after any sequence of calls of
  \<^verbatim>\<open>createBooking\<close> every ticket id has at most one booking with status \<open>success\<close>.
  And when a ticket the attempt selected already has a booking row, the insert is refused
  for the unique constraint, the attempt is rolled back and the call fails with the
  conflict error, the committed tables being what they were. A statement reaches the unique
  constraint only when the server takes its parameters: the limit is in the range of the
  selection, the user id and the reference have no NUL and fit their columns.
\<close>

theorem no_double_booking:
  assumes "distinct (map b_ticket_id (bookings (committed s)))"
  shows "(\<forall>tid. confirmed_count (committed (run s as)) tid \<le> 1)
    \<and> (\<forall>e r. r_quantity r < 2 ^ 63
           \<and> fits_varchar255 (r_userId r) \<and> fits_varchar255 (bookingReference e)
           \<and> \<not> int (length (selected e r (committed s))) < r_quantity r
           \<and> (\<exists>t \<in> set (selected e r (committed s)).
                  t_id t \<in> b_ticket_id ` set (bookings (committed s)))
         \<longrightarrow> fst (createBooking e r s) = Inl AlreadyBooked
             \<and> committed (snd (createBooking e r s)) = committed s
             \<and> (\<exists>evs. trace (snd (createBooking e r s)) = evs @ [EvRollback]))"
proof -
  have one: "confirmed_count (committed (run s as)) tid \<le> 1" for tid
    unfolding confirmed_count_def
    using distinct_count_le_1[OF run_distinct[OF assms, of as]] by simp
  have two: "fst (createBooking e r s) = Inl AlreadyBooked
             \<and> committed (snd (createBooking e r s)) = committed s
             \<and> (\<exists>evs. trace (snd (createBooking e r s)) = evs @ [EvRollback])"
    if q: "r_quantity r < 2 ^ 63"
      and u: "fits_varchar255 (r_userId r)" and b: "fits_varchar255 (bookingReference e)"
      and n: "\<not> int (length (selected e r (committed s))) < r_quantity r"
      and x: "\<exists>t \<in> set (selected e r (committed s)).
                  t_id t \<in> b_ticket_id ` set (bookings (committed s))" for e r
  proof -
    let ?sel = "selected e r (committed s)"
    have nonneg: "0 \<le> r_quantity r"
    proof (rule ccontr)
      assume "\<not> 0 \<le> r_quantity r"
      then have "?sel = []" by (simp add: selected_def)
      with x show False by simp
    qed
    with q have lim: "limit_error (r_quantity r) = None" by (simp add: limit_error_None)
    have ids: "t_id ` set ?sel \<subseteq> t_id ` set (tickets (committed s))"
      using set_selected[of e r "committed s"] by auto
    obtain res c2 where l: "insert_bookings e r ?sel [] (selecting e r s) = (res, c2)"
      by (cases "insert_bookings e r ?sel [] (selecting e r s)")
    from insert_bookings_conflict[of "selecting e r s" "committed s" r e ?sel "[]",
        OF txn_selecting u b ids x] l
    have "res = Inl AlreadyBooked" by simp
    with createBooking_loop_failed[OF lim n, of AlreadyBooked c2] l
    have f: "fst (createBooking e r s) = Inl AlreadyBooked" by simp
    from createBooking_failed_committed[OF f] createBooking_failed_rolled_back[OF f] f
    show ?thesis by simp
  qed
  from one two show ?thesis by blast
qed

theorem no_double_booking_witness:
  "confirmed_count (committed (run small_server [(paying, one_GA), (paying, one_GA)])) 2 \<le> 1
   \<and> fst (createBooking paying one_GA raced_server) = Inl AlreadyBooked
   \<and> committed (snd (createBooking paying one_GA raced_server)) = committed raced_server"
proof -
  have d0: "distinct (map b_ticket_id (bookings (committed small_server)))"
    by (simp add: example_defs)
  have d1: "distinct (map b_ticket_id (bookings (committed raced_server)))"
    by (simp add: example_defs)
  have sel: "selected paying one_GA (committed raced_server) = [ticket 2 GA 10 True]"
    by (simp add: selected_def candidate_def example_defs)
  have pre: "r_quantity one_GA < 2 ^ 63
           \<and> fits_varchar255 (r_userId one_GA) \<and> fits_varchar255 (bookingReference paying)
           \<and> \<not> int (length (selected paying one_GA (committed raced_server))) < r_quantity one_GA
           \<and> (\<exists>t \<in> set (selected paying one_GA (committed raced_server)).
                  t_id t \<in> b_ticket_id ` set (bookings (committed raced_server)))"
    unfolding sel by (simp add: example_defs fits_varchar255_def)
  from no_double_booking [OF d0, of "[(paying, one_GA), (paying, one_GA)]"]
  have a: "confirmed_count (committed (run small_server [(paying, one_GA), (paying, one_GA)])) 2 \<le> 1"
    by blast
  from no_double_booking [OF d1, of "[]"] pre
  have b: "fst (createBooking paying one_GA raced_server) = Inl AlreadyBooked
             \<and> committed (snd (createBooking paying one_GA raced_server)) = committed raced_server"
    by blast
  from a b show ?thesis by simp
qed

text \<open>
  Claim C2. \<^verbatim>\<open>createBooking\<close> is all or nothing: whenever it fails, whatever the error,
  the committed tables are exactly what they were before the call and the last statement
  sent is a \<^verbatim>\<open>ROLLBACK\<close>; every ticket the attempt had selected is in the table with its
  flag true, and the bookings table has no row of the attempt.
\<close>

theorem createBooking_all_or_nothing:
  assumes "fst (createBooking e r s) = Inl err"
  shows "committed (snd (createBooking e r s)) = committed s
     \<and> (\<exists>evs. trace (snd (createBooking e r s)) = evs @ [EvRollback])
     \<and> (\<forall>t \<in> set (selected e r (committed s)).
           t \<in> set (tickets (committed (snd (createBooking e r s)))) \<and> t_available t)
     \<and> bookings (committed (snd (createBooking e r s))) = bookings (committed s)"
proof -
  have c: "committed (snd (createBooking e r s)) = committed s"
    using assms by (rule createBooking_failed_committed)
  have "t \<in> set (tickets (committed s)) \<and> t_available t"
    if "t \<in> set (selected e r (committed s))" for t
    using that set_selected[of e r "committed s"] by (auto simp: candidate_def)
  with c createBooking_failed_rolled_back[OF assms] show ?thesis by simp
qed

theorem createBooking_all_or_nothing_witness:
  "fst (createBooking declined one_GA small_server) = Inl PaymentFailed
   \<and> committed (snd (createBooking declined one_GA small_server)) = small_db
   \<and> selected declined one_GA small_db = [ticket 2 GA 10 True]"
proof -
  have f: "fst (createBooking declined one_GA small_server) = Inl PaymentFailed"
    by (simp add: declined_one_GA)
  have s: "selected declined one_GA small_db = [ticket 2 GA 10 True]"
    by (simp add: selected_def candidate_def example_defs)
  from createBooking_all_or_nothing [OF f] f s show ?thesis
    by (simp add: small_server_def)
qed

text \<open>
  Claim C3. When the selection finds fewer tickets of the tier, available and unlocked,
  than the request asks for, \<^verbatim>\<open>createBooking\<close> fails with the insufficient-tickets error
  carrying the requested and the found count; it sends no \<^verbatim>\<open>INSERT\<close> and no \<^verbatim>\<open>UPDATE\<close>,
  rolls back, and leaves the server as it was but for the trace. The selection finds
  something only for a quantity the server takes as a limit, below \<open>2\<^sup>6\<^sup>3\<close>; from there
  on the call fails with the error of the database instead, as
  \<open>createBooking_limit_error\<close> says.
\<close>

theorem createBooking_insufficient_inventory:
  assumes "r_quantity r < 2 ^ 63"
    and "int (length (filter (candidate (locked e) (r_tier r)) (tickets (committed s))))
           < r_quantity r"
  shows "createBooking e r s =
     (Inl (InsufficientTickets (r_quantity r)
             (length (filter (candidate (locked e) (r_tier r)) (tickets (committed s))))),
      s\<lparr>trace := trace s @ [EvSetIsolation, EvBegin,
                             EvSelectForUpdate (r_tier r) (r_quantity r),
                             EvRollback, EvRollback]\<rparr>)"
proof -
  let ?n = "length (filter (candidate (locked e) (r_tier r)) (tickets (committed s)))"
  have "0 \<le> r_quantity r" using assms(2) by linarith
  with assms(1) have lim: "limit_error (r_quantity r) = None"
    by (simp add: limit_error_None)
  have "length (selected e r (committed s)) = ?n"
    using assms(2) by (simp add: selected_def)
  with createBooking_insufficient[OF lim, of e s] assms(2) show ?thesis by simp
qed

theorem createBooking_insufficient_inventory_witness:
  "createBooking paying (one_GA\<lparr>r_quantity := 3\<rparr>) small_server =
     (Inl (InsufficientTickets 3 2),
      small_server\<lparr>trace := [EvSetIsolation, EvBegin, EvSelectForUpdate GA 3,
                             EvRollback, EvRollback]\<rparr>)"
  using createBooking_insufficient_inventory [of "one_GA\<lparr>r_quantity := 3\<rparr>" paying small_server]
  by (simp add: candidate_def example_defs)

text \<open>
  Claim C4. Selection is lowest id first. For a quantity the server takes as a limit (not
  negative, below \<open>2\<^sup>6\<^sup>3\<close>) \<^verbatim>\<open>getAvailableTickets\<close> returns exactly the first
  \<open>min quantity count\<close> candidates in the order of their ids, the candidates being the
  tickets of the tier that are available and not locked by another transaction: the result
  has that length, is sorted by id, takes each row at most as often as the candidates have
  it, its ids are the first ids of the sorted ids of the candidates, and every candidate
  left out has an id at least as large as each returned one. A locked ticket is no
  candidate: it is passed over and the next one is taken.
\<close>

theorem getAvailableTickets_lowest_first:
  assumes "0 \<le> quantity" "quantity < 2 ^ 63"
  shows "\<exists>sel. getAvailableTickets lk c tier quantity
                 = (Inr sel, record_event (EvSelectForUpdate tier quantity) c)
     \<and> length sel = min (nat quantity) (length (filter (candidate lk tier) (tickets (cur c))))
     \<and> sorted (map t_id sel)
     \<and> mset sel \<subseteq># mset (filter (candidate lk tier) (tickets (cur c)))
     \<and> map t_id sel
         = take (nat quantity) (sort (map t_id (filter (candidate lk tier) (tickets (cur c)))))
     \<and> (distinct (map t_id (tickets (cur c))) \<longrightarrow> distinct (map t_id sel))
     \<and> set sel \<subseteq> set (tickets (cur c))
     \<and> (\<forall>t \<in> set sel. t_tier t = tier \<and> t_available t \<and> t_id t \<notin> lk)
     \<and> (\<forall>u \<in> set (tickets (cur c)).
           t_tier u = tier \<and> t_available u \<and> t_id u \<notin> lk \<and> u \<notin> set sel
           \<longrightarrow> (\<forall>t \<in> set sel. t_id t \<le> t_id u))"
proof -
  define cands where "cands = filter (candidate lk tier) (tickets (cur c))"
  define srt where "srt = sort_key t_id cands"
  define sel where "sel = take (nat quantity) srt"
  have lim: "limit_error quantity = None"
    using assms by (simp add: limit_error_None)
  have set_srt: "set srt = {t \<in> set (tickets (cur c)). candidate lk tier t}"
    by (simp add: srt_def cands_def)
  have srt: "sorted (map t_id srt)" unfolding srt_def by (rule sorted_sort_key)
  have in_srt: "t \<in> set srt" if "t \<in> set sel" for t
    using that unfolding sel_def by (rule in_set_takeD)
  have res: "getAvailableTickets lk c tier quantity
               = (Inr sel, record_event (EvSelectForUpdate tier quantity) c)"
    using lim
    by (simp add: getAvailableTickets_def query_select_for_update_def Let_def sel_def srt_def
        cands_def)
  have len: "length sel = min (nat quantity) (length cands)"
    by (simp add: sel_def srt_def min.commute)
  have sorted_sel: "sorted (map t_id sel)"
    using srt by (simp add: sel_def take_map[symmetric] sorted_wrt_take)
  have sub: "mset sel \<subseteq># mset cands"
  proof -
    have "mset sel \<subseteq># mset (take (nat quantity) srt) + mset (drop (nat quantity) srt)"
      by (simp add: sel_def)
    also have "\<dots> = mset srt" by (simp flip: mset_append)
    also have "\<dots> = mset cands" by (simp add: srt_def)
    finally show ?thesis .
  qed
  have ids: "map t_id sel = take (nat quantity) (sort (map t_id cands))"
    by (simp add: sel_def srt_def map_sort_key flip: take_map)
  have dist: "distinct (map t_id sel)" if "distinct (map t_id (tickets (cur c)))"
  proof -
    have "distinct (map t_id cands)" using that unfolding cands_def by (rule distinct_map_filter)
    then have "distinct (sort (map t_id cands))" by simp
    then show ?thesis unfolding ids by (rule distinct_take)
  qed
  have subset: "set sel \<subseteq> set (tickets (cur c))"
    using in_srt set_srt by blast
  have cand: "\<forall>t \<in> set sel. t_tier t = tier \<and> t_available t \<and> t_id t \<notin> lk"
    using in_srt set_srt by (auto simp: candidate_def)
  have low: "\<forall>u \<in> set (tickets (cur c)).
           t_tier u = tier \<and> t_available u \<and> t_id u \<notin> lk \<and> u \<notin> set sel
           \<longrightarrow> (\<forall>t \<in> set sel. t_id t \<le> t_id u)"
  proof (intro ballI impI)
    fix u t
    assume u: "u \<in> set (tickets (cur c))"
      and p: "t_tier u = tier \<and> t_available u \<and> t_id u \<notin> lk \<and> u \<notin> set sel"
      and t: "t \<in> set sel"
    have "u \<in> set srt" using u p by (simp add: set_srt candidate_def)
    then have "u \<in> set (take (nat quantity) srt) \<union> set (drop (nat quantity) srt)"
      by (metis append_take_drop_id set_append)
    with p have "u \<in> set (drop (nat quantity) srt)" by (simp add: sel_def)
    with srt t show "t_id t \<le> t_id u" unfolding sel_def by (rule sorted_take_le_drop)
  qed
  have dist': "distinct (map t_id (tickets (cur c))) \<longrightarrow> distinct (map t_id sel)"
    using dist by blast
  show ?thesis
    unfolding cands_def[symmetric]
    by (rule exI[of _ sel]) (intro conjI res len sorted_sel sub ids dist' subset cand low)
qed

theorem getAvailableTickets_lowest_first_witness:
  "fst (getAvailableTickets {2} (pool_connect small_server) GA 5) = Inr [ticket 3 GA 10 True]"
  using getAvailableTickets_lowest_first [of 5 "{2}" "pool_connect small_server" GA]
  by (simp add: getAvailableTickets_def query_select_for_update_def Let_def cur_def
        pool_connect_def candidate_def limit_error_def example_defs)

text \<open>
  Claim C5. A retry is not recognised. The request carries no reference; the service
  draws a new one in every call, after the selection. After a committed booking, the same
  request sent again books the next ticket; and were the same reference drawn again, the
  insert would violate the unique constraint on \<^verbatim>\<open>booking_reference\<close> and the call would
  fail with the conflict error. In neither case is the committed batch returned.
\<close>

theorem retry_allocates_again:
  "createBooking paying one_GA small_server =
     (Inr [\<lparr>b_id = 1, b_ticket_id = 2, b_user_id = ''alice'', b_quantity = 1,
            b_total_price = 10, b_payment_status = success,
            b_booking_reference = Some ''BK-1'', b_created_at = 5\<rparr>], booked_server)
   \<and> fst (createBooking paying one_GA booked_server) = Inl AlreadyBooked
   \<and> fst (createBooking (paying\<lparr>bookingReference := ''BK-3''\<rparr>) one_GA booked_server) =
       Inr [\<lparr>b_id = 2, b_ticket_id = 3, b_user_id = ''alice'', b_quantity = 1,
              b_total_price = 10, b_payment_status = success,
              b_booking_reference = Some ''BK-3'', b_created_at = 5\<rparr>]"
  by (simp add: paying_one_GA paying_again paying_fresh_reference)

text \<open>
  Claim C6. The flag \<open>available\<close> of a ticket is only ever cleared. After any sequence
  of calls of \<^verbatim>\<open>createBooking\<close> the tickets table has the same rows in the same places,
  each either unchanged or with its flag set to false, so a flag that is false stays
  false; and a call that fails leaves the tickets table as it was. The two read-only entry
  points are functions of the tables and return no state.
\<close>

theorem available_only_cleared:
  "list_all2 kept_or_cleared (tickets (committed s)) (tickets (committed (run s as)))
   \<and> (\<forall>i < length (tickets (committed s)).
         t_available (tickets (committed (run s as)) ! i) \<longrightarrow> t_available (tickets (committed s) ! i))
   \<and> (\<forall>e r err. fst (createBooking e r s) = Inl err \<longrightarrow>
         tickets (committed (snd (createBooking e r s))) = tickets (committed s))"
proof -
  have a: "list_all2 kept_or_cleared (tickets (committed s)) (tickets (committed (run s as)))"
    by (rule run_flags)
  have "t_available (tickets (committed (run s as)) ! i) \<longrightarrow> t_available (tickets (committed s) ! i)"
    if "i < length (tickets (committed s))" for i
    using list_all2_nthD[OF a that] by (auto simp: kept_or_cleared_def)
  with a show ?thesis by (simp add: createBooking_failed_committed)
qed

theorem available_only_cleared_witness:
  "tickets (committed (run small_server [(paying, one_GA), (declined, one_GA)])) =
     [ticket 1 VIP 100 True, ticket 3 GA 10 True, ticket 2 GA 10 False]
   \<and> list_all2 kept_or_cleared (tickets small_db)
        [ticket 1 VIP 100 True, ticket 3 GA 10 True, ticket 2 GA 10 False]"
proof -
  have r: "tickets (committed (run small_server [(paying, one_GA), (declined, one_GA)])) =
     [ticket 1 VIP 100 True, ticket 3 GA 10 True, ticket 2 GA 10 False]"
    by (simp add: paying_one_GA declined_after_paying) (simp add: booked_server_def)
  from available_only_cleared [of small_server "[(paying, one_GA), (declined, one_GA)]"]
  show ?thesis unfolding r by (simp add: small_server_def)
qed

text \<open>
  Claim C7, as amended. The payment is simulated at most once in an attempt. When the
  attempt fails before (negative limit, too few tickets, a refused insert) it is not
  simulated at all. Otherwise it is simulated exactly once, at a moment when the
  transaction is open and nothing is committed, a pending row exists for each of the
  \<open>quantity\<close> selected tickets and each of these tickets is marked unavailable in the
  working copy; the only statements after it are the status update and \<^verbatim>\<open>COMMIT\<close>, or
  \<^verbatim>\<open>ROLLBACK\<close>.
\<close>

theorem payment_between_claim_and_commit:
  "payments (attempt_events e r s) \<le> 1
   \<and> (case claim_tickets e r (pool_connect s) of
        (Inl err, c) \<Rightarrow>
           fst (createBooking e r s) = Inl err \<and> payments (attempt_events e r s) = 0
      | (Inr (ts, bs), c) \<Rightarrow>
           payments (attempt_events e r s) = 1
           \<and> int (length ts) = r_quantity r \<and> map b_ticket_id bs = map t_id ts
           \<and> (\<exists>w. txn c = Some w \<and> committed c = committed s
                 \<and> (\<forall>b \<in> set bs. b \<in> set (bookings w) \<and> b_payment_status b = pending)
                 \<and> (\<forall>t \<in> set ts. \<forall>u \<in> set (tickets w). t_id u = t_id t \<longrightarrow> \<not> t_available u))
           \<and> payments (drop (length (trace s)) (trace c)) = 0
           \<and> trace (snd (createBooking e r s)) =
               trace c @ EvSimulatePayment #
                 (if paymentSuccess e then [EvUpdateStatus (bookingReference e), EvCommit]
                  else [EvRollback, EvRollback]))"
proof -
  obtain res c where ct: "claim_tickets e r (pool_connect s) = (res, c)"
    by (cases "claim_tickets e r (pool_connect s)")
  show ?thesis
  proof (cases res)
    case (Inl err)
    from claim_tickets_failed[OF ct[unfolded Inl]] obtain evs where
      f: "fst (createBooking e r s) = Inl err"
      and t: "trace (snd (createBooking e r s)) = trace s @ evs" "EvSimulatePayment \<notin> set evs"
      by blast
    have "payments (attempt_events e r s) = 0"
      using t by (simp add: attempt_events_def payments_none)
    with f show ?thesis by (simp add: ct Inl)
  next
    case (Inr p)
    obtain ts bs where p: "p = (ts, bs)" by (cases p)
    note ct' = ct[unfolded Inr p]
    from claim_tickets_claimed[OF ct'] have
      len: "int (length ts) = r_quantity r"
      and bs: "bs = pending_rows e r (bookings_id_seq s) ts"
      and tx: "txn c = Some \<lparr>tickets = mark_all (t_id ` set ts) (tickets (committed s)),
                       bookings = bookings (committed s) @ bs\<rparr>"
      and cm: "committed c = committed s"
      and tc: "trace c = trace s @ [EvSetIsolation, EvBegin, EvSelectForUpdate (r_tier r) (r_quantity r)]
                    @ claim_events ts"
      by blast+
    note tr = createBooking_after_claim[OF ct']
    have p0: "payments (drop (length (trace s)) (trace c)) = 0"
      by (simp add: tc payments_Cons payments_Nil payments_none claim_events_no_payment)
    have p1: "payments (attempt_events e r s) = 1"
      unfolding attempt_events_def tr
      by (simp add: tc payments_append payments_Cons payments_Nil payments_none
          claim_events_no_payment)
    have rows: "\<forall>b \<in> set bs. b \<in> set (bookings \<lparr>tickets = mark_all (t_id ` set ts) (tickets (committed s)),
                       bookings = bookings (committed s) @ bs\<rparr>) \<and> b_payment_status b = pending"
      using bs pending_rows_pending by auto
    have flags: "\<forall>t \<in> set ts. \<forall>u \<in> set (tickets \<lparr>tickets = mark_all (t_id ` set ts) (tickets (committed s)),
                       bookings = bookings (committed s) @ bs\<rparr>). t_id u = t_id t \<longrightarrow> \<not> t_available u"
      using mark_all_unavailable by fastforce
    have ids: "map b_ticket_id bs = map t_id ts" by (simp add: bs pending_rows_ids)
    from p1 p0 len ids tx cm rows flags tr show ?thesis
      by (simp add: ct Inr p)
  qed
qed

theorem payment_between_claim_and_commit_witness:
  "payments (attempt_events paying one_GA small_server) = 1
   \<and> trace (snd (createBooking paying one_GA small_server)) =
       [EvSetIsolation, EvBegin, EvSelectForUpdate GA 1, EvInsertBooking 2,
        EvMarkUnavailable 2, EvSimulatePayment, EvUpdateStatus ''BK-1'', EvCommit]"
proof -
  have c: "fst (claim_tickets paying one_GA (pool_connect small_server)) =
      Inr ([ticket 2 GA 10 True],
           [\<lparr>b_id = 1, b_ticket_id = 2, b_user_id = ''alice'', b_quantity = 1,
             b_total_price = 10, b_payment_status = pending,
             b_booking_reference = Some ''BK-1'', b_created_at = 5\<rparr>])"
    by (simp add: createBooking_eval example_defs)
  obtain c1 where "claim_tickets paying one_GA (pool_connect small_server) =
       (Inr ([ticket 2 GA 10 True],
           [\<lparr>b_id = 1, b_ticket_id = 2, b_user_id = ''alice'', b_quantity = 1,
             b_total_price = 10, b_payment_status = pending,
             b_booking_reference = Some ''BK-1'', b_created_at = 5\<rparr>]), c1)"
    using c by (cases "claim_tickets paying one_GA (pool_connect small_server)") simp
  with payment_between_claim_and_commit [of paying one_GA small_server]
  have "payments (attempt_events paying one_GA small_server) = 1" by simp
  then show ?thesis by (simp add: paying_one_GA booked_server_def)
qed

text \<open>
  The claim as it is written, exactly one payment in every attempt, fails for an attempt
  that asks for three GA tickets when two are there.
\<close>

theorem payment_not_once_counterexample:
  "payments (attempt_events paying (one_GA\<lparr>r_quantity := 3\<rparr>) small_server) \<noteq> 1"
  by (simp add: attempt_events_def payments_def createBooking_eval example_defs)

text \<open>
  Claim C8. With no booking in flight, the report of \<^verbatim>\<open>getTicketAvailability\<close> is
  consistent with the tickets table: for every tier, \<open>available\<close> is the number of
  tickets of the tier whose flag is true, \<open>total\<close> is the number of tickets of the tier,
  and \<open>price\<close> is the price of the tier, when the tier has a ticket and all its tickets
  carry that price.
\<close>

theorem availability_counts:
  "a_available (entry (getTicketAvailability d) tr)
     = length (filter (\<lambda>t. t_tier t = tr \<and> t_available t) (tickets d))
   \<and> a_total (entry (getTicketAvailability d) tr)
     = length (filter (\<lambda>t. t_tier t = tr) (tickets d))
   \<and> ((\<exists>t \<in> set (tickets d). t_tier t = tr)
        \<and> (\<forall>t \<in> set (tickets d). t_tier t = tr \<longrightarrow> t_price t = p)
      \<longrightarrow> a_price (entry (getTicketAvailability d) tr) = p)"
proof -
  let ?g = "filter (\<lambda>t. t_tier t = tr) (tickets d)"
  have flt: "filter t_available ?g = filter (\<lambda>t. t_tier t = tr \<and> t_available t) (tickets d)"
    by (simp add: conj_commute)
  show ?thesis
  proof (cases "tr \<in> t_tier ` set (tickets d)")
    case True
    then have e: "entry (getTicketAvailability d) tr = tier_entry d tr"
      by (simp add: entry_getTicketAvailability or_default_def)
    have ne: "?g \<noteq> []" using True by (auto simp: filter_empty_conv)
    have "(\<forall>t \<in> set (tickets d). t_tier t = tr \<longrightarrow> t_price t = p)
            \<Longrightarrow> max_price (map t_price ?g) = p"
      using ne by (intro max_price_const) auto
    then show ?thesis using flt by (auto simp: e tier_entry_def Let_def)
  next
    case False
    then have e: "entry (getTicketAvailability d) tr =
        \<lparr>a_available = 0, a_total = 0, a_price = default_price tr\<rparr>"
      by (simp add: entry_getTicketAvailability or_default_def)
    have "?g = []" using False by (rule no_ticket_filter)
    moreover have "filter (\<lambda>t. t_tier t = tr \<and> t_available t) (tickets d) = []"
      using False by (auto simp: filter_empty_conv)
    ultimately show ?thesis using False by (auto simp: e)
  qed
qed

theorem availability_counts_witness:
  "a_available (entry (getTicketAvailability small_db) GA) = 2
   \<and> a_total (entry (getTicketAvailability small_db) GA) = 2
   \<and> a_price (entry (getTicketAvailability small_db) GA) = 10"
  using availability_counts [of small_db GA 10]
  by (simp add: small_db_def ticket_def)

text \<open>
  Claim C9. Validation comes first: a body that is no object, or whose tier is not one of
  the three, or whose quantity is not an integer between 1 and 100, or whose user id is
  missing or empty, is exactly a body the schema refuses; the handler answers it with
  status 400 and the server is untouched: \<^verbatim>\<open>createBooking\<close> is not called, no statement
  is sent.
\<close>

theorem invalid_request_never_reaches_createBooking:
  "(spec_invalid_request body \<longleftrightarrow> bookingRequestSchema_safeParse body = None)
   \<and> (spec_invalid_request body \<longrightarrow> post_bookings e body s = ((400, InvalidRequest), s))"
  by (simp add: safeParse_None[symmetric] post_bookings_def)

theorem invalid_request_never_reaches_createBooking_witness:
  "post_bookings paying
     (JObj [(''tier'', JStr ''GA''), (''quantity'', JNum 101), (''userId'', JStr ''alice'')])
     small_server
   = ((400, InvalidRequest), small_server)"
proof -
  have "spec_invalid_request
          (JObj [(''tier'', JStr ''GA''), (''quantity'', JNum 101), (''userId'', JStr ''alice'')])"
    by (simp add: spec_invalid_request_def field_def)
  with invalid_request_never_reaches_createBooking show ?thesis by blast
qed

text \<open>
  Claim C10. \<^verbatim>\<open>getTicketAvailability\<close> has an entry for each of the three tiers; for a
  tier without any ticket the entry is \<open>available = 0\<close>, \<open>total = 0\<close> and the default
  price: 100 for VIP, 50 for Front Row, 10 for GA.
\<close>

theorem availability_defaults:
  "\<forall>t \<in> set (tickets d). t_tier t \<noteq> tr \<Longrightarrow>
   entry (getTicketAvailability d) tr =
     \<lparr>a_available = 0, a_total = 0,
      a_price = (case tr of VIP \<Rightarrow> 100 | FrontRow \<Rightarrow> 50 | GA \<Rightarrow> 10)\<rparr>"
proof -
  assume "\<forall>t \<in> set (tickets d). t_tier t \<noteq> tr"
  then have "entry (getTicketAvailability d) tr =
      \<lparr>a_available = 0, a_total = 0, a_price = default_price tr\<rparr>"
    by (auto simp: entry_getTicketAvailability or_default_def)
  moreover have "default_price tr = (case tr of VIP \<Rightarrow> 100 | FrontRow \<Rightarrow> 50 | GA \<Rightarrow> 10)"
    by (cases tr) simp_all
  ultimately show ?thesis by simp
qed

theorem availability_defaults_witness:
  "entry (getTicketAvailability small_db) FrontRow
     = \<lparr>a_available = 0, a_total = 0, a_price = 50\<rparr>"
  using availability_defaults [of small_db FrontRow]
  by (simp add: small_db_def ticket_def)

end
